theory Spec2Isabelle
  imports Main "HOL-Library.Word" "HOL-Library.Sublist" "HOL-Library.AList"
begin

section \<open>JavaScript strings\<close>

text \<open>
  A JavaScript string is a sequence of UTF-16 code units. The functions below are the
  string methods that \<^verbatim>\<open>server.js\<close> calls, with the semantics ECMAScript gives them:
  \<^verbatim>\<open>indexOf\<close> returns the first position or \<open>-1\<close>, \<^verbatim>\<open>substring\<close> clamps its
  arguments to the string and swaps them when they are out of order, \<^verbatim>\<open>trim\<close> removes
  white space and line terminators from both ends.
\<close>

type_synonym jschar = "16 word"
type_synonym jsstring = "jschar list"

text \<open>An ASCII string literal of the source, as code units.\<close>

definition js :: "string \<Rightarrow> jsstring" where
  "js s = map of_char s"

text \<open>Decimal rendering of a number inside a template literal.\<close>

fun toString :: "nat \<Rightarrow> jsstring" where
  "toString n =
     (if n < 10 then [of_nat (48 + n)]
      else toString (n div 10) @ [of_nat (48 + n mod 10)])"

declare toString.simps [simp del]

fun indexOf_from :: "jsstring \<Rightarrow> jsstring \<Rightarrow> nat \<Rightarrow> int" where
  "indexOf_from [] searchString k = (if searchString = [] then int k else - 1)"
| "indexOf_from (c # cs) searchString k =
     (if prefix searchString (c # cs) then int k
      else indexOf_from cs searchString (Suc k))"

definition indexOf :: "jsstring \<Rightarrow> jsstring \<Rightarrow> int" where
  "indexOf s searchString = indexOf_from s searchString 0"

definition includes_str :: "jsstring \<Rightarrow> jsstring \<Rightarrow> bool" where
  "includes_str s searchString \<longleftrightarrow> indexOf s searchString \<noteq> - 1"

definition substring :: "jsstring \<Rightarrow> int \<Rightarrow> int \<Rightarrow> jsstring" where
  "substring s indexStart indexEnd =
     (let len = int (length s);
          finalStart = min (max indexStart 0) len;
          finalEnd = min (max indexEnd 0) len;
          from = min finalStart finalEnd;
          to = max finalStart finalEnd
      in take (nat (to - from)) (drop (nat from) s))"

text \<open>\<^verbatim>\<open>s.substring(indexStart)\<close>: the end defaults to the length of the string.\<close>

definition substring_from :: "jsstring \<Rightarrow> int \<Rightarrow> jsstring" where
  "substring_from s indexStart = substring s indexStart (int (length s))"

text \<open>White space and line terminators of ECMAScript, which \<^verbatim>\<open>trim\<close> removes.\<close>

definition isWhiteSpace :: "jschar \<Rightarrow> bool" where
  "isWhiteSpace c \<longleftrightarrow>
     c = 0x09 \<or> c = 0x0A \<or> c = 0x0B \<or> c = 0x0C \<or> c = 0x0D \<or> c = 0x20 \<or> c = 0xA0 \<or>
     c = 0x1680 \<or> (0x2000 \<le> c \<and> c \<le> 0x200A) \<or> c = 0x2028 \<or> c = 0x2029 \<or>
     c = 0x202F \<or> c = 0x205F \<or> c = 0x3000 \<or> c = 0xFEFF"

definition trim :: "jsstring \<Rightarrow> jsstring" where
  "trim s = rev (dropWhile isWhiteSpace (rev (dropWhile isWhiteSpace s)))"

text \<open>
  \<^verbatim>\<open>s.replace(/[\u0000-\u001F\u007F-\u009F]/g, "")\<close>: every code unit of the two ranges
  is deleted.
\<close>

definition unrendered :: "jschar \<Rightarrow> bool" where
  "unrendered c \<longleftrightarrow> c \<le> 0x1F \<or> (0x7F \<le> c \<and> c \<le> 0x9F)"

definition removeUnrendered :: "jsstring \<Rightarrow> jsstring" where
  "removeUnrendered s = filter (\<lambda>c. \<not> unrendered c) s"

section \<open>The articulation check\<close>

text \<open>
  The object \<^verbatim>\<open>checkCourseArticulation\<close> returns. The field \<open>error_cc\<close> is the
  \<^verbatim>\<open>error\<close> property, present only on the path of the \<^verbatim>\<open>catch\<close>; \<open>key_cc\<close> is
  \<^verbatim>\<open>key\<close>.
\<close>

record courseCheck =
  college :: jsstring
  isArticulated :: bool
  articulatedCourse :: "jsstring option"
  key_cc :: jsstring
  error_cc :: "jsstring option"

text \<open>
  The literal the source searches for after the course: the two code units U+00E2 and
  U+2020 (the bytes C3 A2 E2 80 A0 of the file).
\<close>

definition arrow :: jsstring where
  "arrow = [0xE2, 0x2020]"

definition notArticulated :: "jsstring list" where
  "notArticulated =
     [js ''No Course Articulated'', js ''No Comparable Course'', js ''Course(s) Denied'']"

text \<open>The \<^verbatim>\<open>From:\<close> block: the college name of the document.\<close>

definition collegeOf :: "jsstring \<Rightarrow> jsstring" where
  "collegeOf cleanText =
     (let fromIndex = indexOf cleanText (js ''From:'') in
      if fromIndex \<noteq> - 1 then
        (let afterFrom = substring_from cleanText (fromIndex + 6);
             yearIndex = indexOf afterFrom (js ''2'')
         in if yearIndex \<noteq> - 1 then trim (substring afterFrom 0 (yearIndex - 1)) else [])
      else [])"

text \<open>The body of the \<^verbatim>\<open>try\<close> block once the text of the document is there.\<close>

definition checkText :: "jsstring \<Rightarrow> jsstring \<Rightarrow> jsstring \<Rightarrow> courseCheck" where
  "checkText text course key =
     (let cleanCourse = removeUnrendered course;
          cleanText = removeUnrendered text;
          college = collegeOf cleanText;
          searchPosition = indexOf cleanText cleanCourse;
          negative = \<lparr>college = college, isArticulated = False, articulatedCourse = None,
                      key_cc = key, error_cc = None\<rparr>
      in if searchPosition \<noteq> - 1 then
           (let afterCourse = substring_from cleanText (searchPosition + int (length cleanCourse));
                arrowIndex = indexOf afterCourse arrow
            in if arrowIndex \<noteq> - 1 then
                 (let articulatedSection = substring afterCourse arrowIndex (arrowIndex + 30);
                      isNotArticulated =
                        list_ex (\<lambda>phrase. includes_str articulatedSection phrase) notArticulated
                  in if \<not> isNotArticulated then
                       \<lparr>college = college, isArticulated = True,
                        articulatedCourse = Some (trim articulatedSection),
                        key_cc = key, error_cc = None\<rparr>
                     else negative)
               else negative)
         else negative)"

text \<open>
  \<^verbatim>\<open>checkCourseArticulation(pdfBuffer, course, key)\<close>. The PDF parser is a library
  the repository imports: it is a parameter, and either throws (\<open>Inl\<close> the message of
  the error) or yields the text of the document.
\<close>

type_synonym buffer = "8 word list"
type_synonym pdfParser = "buffer \<Rightarrow> jsstring + jsstring"

definition checkCourseArticulation ::
    "pdfParser \<Rightarrow> buffer \<Rightarrow> jsstring \<Rightarrow> jsstring \<Rightarrow> courseCheck" where
  "checkCourseArticulation PDFParser pdfBuffer course key =
     (case PDFParser pdfBuffer of
        Inr text \<Rightarrow> checkText text course key
      | Inl message \<Rightarrow>
          \<lparr>college = [], isArticulated = False, articulatedCourse = None,
           key_cc = key, error_cc = Some message\<rparr>)"

section \<open>The job store\<close>

text \<open>
  The statuses are the strings \<^verbatim>\<open>"processing"\<close>, \<^verbatim>\<open>"completed"\<close> and
  \<^verbatim>\<open>"failed"\<close> of the source. A job is the object literal stored under a job id; a
  property that a literal does not write is \<open>None\<close> (\<^verbatim>\<open>undefined\<close>), and so is
  \<^verbatim>\<open>error: null\<close>. No literal of the source writes \<^verbatim>\<open>createdAt\<close>; the hourly
  cleanup reads it.
\<close>

datatype status = Processing | Completed | Failed

record job =
  status :: status
  progress :: jsstring
  applicableColleges :: "jsstring list"
  error :: "jsstring option"
  totalProcessed :: "nat option"
  articulatedCount :: "nat option"
  summary :: "jsstring option"
  createdAt :: "int option"

type_synonym jobId = jsstring

text \<open>
  \<^verbatim>\<open>const jobs = new Map()\<close>: the entries in insertion order. \<^verbatim>\<open>jobs.set\<close> is
  \<^const>\<open>AList.update\<close> (it replaces the value of a key in place, or appends the entry),
  \<^verbatim>\<open>jobs.get\<close> is \<^const>\<open>map_of\<close>, \<^verbatim>\<open>jobs.delete\<close> is \<^const>\<open>AList.delete\<close>.
\<close>

type_synonym jobs = "(jobId \<times> job) list"

definition updateJobProgress :: "jobId \<Rightarrow> jsstring \<Rightarrow> jobs \<Rightarrow> jobs" where
  "updateJobProgress jobId newProgress jobs =
     (case map_of jobs jobId of
        Some job \<Rightarrow> AList.update jobId (job\<lparr>progress := newProgress\<rparr>) jobs
      | None \<Rightarrow> jobs)"

text \<open>
  The callback of \<^verbatim>\<open>setInterval\<close>, run at the time \<open>now\<close> (\<^verbatim>\<open>Date.now()\<close>, in
  milliseconds). \<^verbatim>\<open>job.createdAt && job.createdAt < oneHourAgo\<close> is false when the
  property is undefined or 0.
\<close>

definition cleanup :: "int \<Rightarrow> jobs \<Rightarrow> jobs" where
  "cleanup now jobs =
     (let oneHourAgo = now - 60 * 60 * 1000 in
      fold (\<lambda>(jobId, job) js.
              if (case createdAt job of Some t \<Rightarrow> t \<noteq> 0 \<and> t < oneHourAgo | None \<Rightarrow> False)
              then AList.delete jobId js else js)
        jobs jobs)"

section \<open>The upstream service\<close>

text \<open>
  The responses of \<^verbatim>\<open>assist.org\<close> and the PDF parser are the environment of a job.
  Each request either rejects (\<open>Inl\<close> the message of the error) or resolves to the
  data of the response; a request is identified by the parameters of its URL. The
  field \<open>id_inst\<close> is the property \<^verbatim>\<open>id\<close> of an institution, \<open>status_resp\<close> the
  \<^verbatim>\<open>status\<close> of the response of a download.
\<close>

record nameVariant =
  name :: jsstring

record institution =
  id_inst :: nat
  names :: "nameVariant list"

record agreement =
  institutionParentId :: nat

record report =
  label :: jsstring
  key :: jsstring

record majorData =
  reports :: "report list option"

record pdfResponse =
  status_resp :: nat
  data :: buffer

record upstream =
  institutions_api :: "jsstring + institution list"
  agreements_api :: "nat \<Rightarrow> jsstring + agreement list"
  majors_api :: "nat \<Rightarrow> nat \<Rightarrow> jsstring + majorData"
  artifacts_api :: "jsstring \<Rightarrow> jsstring + pdfResponse"
  PDFParser :: pdfParser

section \<open>The processing of a job\<close>

text \<open>
  What a job does, in order: the writes to the store, the suspension points (every
  \<^verbatim>\<open>await\<close>), and the pushes to the local array \<^verbatim>\<open>applicableColleges\<close>.
\<close>

datatype event =
    JobsSet jobId job
  | UpdateJobProgress jobId jsstring
  | Await
  | Push jsstring

fun apply_event :: "event \<Rightarrow> jobs \<Rightarrow> jobs" where
  "apply_event (JobsSet jobId job) jobs = AList.update jobId job jobs"
| "apply_event (UpdateJobProgress jobId newProgress) jobs = updateJobProgress jobId newProgress jobs"
| "apply_event Await jobs = jobs"
| "apply_event (Push c) jobs = jobs"

fun isJobsSet :: "event \<Rightarrow> bool" where
  "isJobsSet (JobsSet jobId job) = True"
| "isJobsSet e = False"

definition run_events :: "event list \<Rightarrow> jobs \<Rightarrow> jobs" where
  "run_events events jobs = fold apply_event events jobs"

text \<open>
  The message of the TypeError that Node raises for \<^verbatim>\<open>institution.names[0].name\<close>
  when \<^verbatim>\<open>names\<close> is empty.
\<close>

definition undefinedNameMessage :: jsstring where
  "undefinedNameMessage =
     js ''Cannot read properties of undefined (reading '' @ [0x27] @ js ''name'' @ [0x27] @ js '')''"

text \<open>
  The loop that finds the target university: \<open>Inl\<close> when reading the first name
  throws, \<open>Inr None\<close> when \<^verbatim>\<open>universityId\<close> is still \<^verbatim>\<open>null\<close> after the loop.
\<close>

fun findUniversity :: "institution list \<Rightarrow> jsstring \<Rightarrow> jsstring + nat option" where
  "findUniversity [] university = Inr None"
| "findUniversity (institution # rest) university =
     (case names institution of
        [] \<Rightarrow> Inl undefinedNameMessage
      | first # _ \<Rightarrow>
          if name first = university then Inr (Some (id_inst institution))
          else findUniversity rest university)"

text \<open>The message of \<^verbatim>\<open>new Error(`University "${university}" not found`)\<close>.\<close>

definition notFoundMessage :: "jsstring \<Rightarrow> jsstring" where
  "notFoundMessage university = js ''University '' @ [0x22] @ university @ [0x22] @ js '' not found''"

text \<open>The job that the \<^verbatim>\<open>catch\<close> of \<^verbatim>\<open>processUniversityPDFs\<close> stores.\<close>

definition failedJob :: "jsstring \<Rightarrow> job" where
  "failedJob message =
     \<lparr>status = Failed, progress = js ''Failed'', applicableColleges = [], error = Some message,
      totalProcessed = None, articulatedCount = None, summary = None, createdAt = None\<rparr>"

text \<open>The loop over \<^verbatim>\<open>majorData.reports\<close>: the first entry with the label, if any.\<close>

fun findMajor :: "report list \<Rightarrow> jsstring \<Rightarrow> report option" where
  "findMajor [] major = None"
| "findMajor (majorEntry # rest) major =
     (if label majorEntry = major then Some majorEntry else findMajor rest major)"

text \<open>
  The body of the loop over the colleges, inside its \<^verbatim>\<open>try\<close>: the events of the
  college and the array \<^verbatim>\<open>applicableColleges\<close> after it. An exception is caught, logged
  and leaves the array as it was. There is one suspension for the request of the majors,
  one for the download, and one for \<^verbatim>\<open>await checkCourseArticulation(...)\<close>, which
  lasts over the \<^verbatim>\<open>await\<close> of the parser inside the check.
\<close>

definition processCollege ::
    "upstream \<Rightarrow> nat \<Rightarrow> jsstring \<Rightarrow> jsstring \<Rightarrow> nat \<Rightarrow> jsstring list \<Rightarrow> event list \<times> jsstring list" where
  "processCollege up universityId major course collegeId colleges =
     (case majors_api up universityId collegeId of
        Inl message \<Rightarrow> ([Await], colleges)
      | Inr majorData \<Rightarrow>
          (case findMajor (case reports majorData of Some rs \<Rightarrow> rs | None \<Rightarrow> []) major of
             None \<Rightarrow> ([Await], colleges)
           | Some majorEntry \<Rightarrow>
               (case artifacts_api up (key majorEntry) of
                  Inl message \<Rightarrow> ([Await, Await], colleges)
                | Inr pdfResponse \<Rightarrow>
                    if status_resp pdfResponse = 200 then
                      (let courseCheck =
                             checkCourseArticulation (PDFParser up) (data pdfResponse) course
                               (key majorEntry)
                       in if isArticulated courseCheck \<and> college courseCheck \<noteq> [] then
                            ([Await, Await, Await, Push (college courseCheck)],
                             colleges @ [college courseCheck])
                          else ([Await, Await, Await], colleges))
                    else ([Await, Await], colleges))))"

text \<open>
  The loop over \<^verbatim>\<open>collegeIds\<close>, with the array and \<^verbatim>\<open>processedCount\<close> as
  accumulators; \<open>collegeCount\<close> is \<^verbatim>\<open>collegeIds.length\<close>.
\<close>

fun processColleges ::
    "upstream \<Rightarrow> jobId \<Rightarrow> nat \<Rightarrow> jsstring \<Rightarrow> jsstring \<Rightarrow> nat \<Rightarrow> nat list \<Rightarrow> jsstring list \<Rightarrow> nat
      \<Rightarrow> event list \<times> jsstring list \<times> nat" where
  "processColleges up jobId universityId major course collegeCount [] colleges processedCount =
     ([], colleges, processedCount)"
| "processColleges up jobId universityId major course collegeCount (collegeId # rest) colleges processedCount =
     (let (events, colleges') = processCollege up universityId major course collegeId colleges;
          processedCount' = processedCount + 1;
          update = UpdateJobProgress jobId
                     (js ''Processed '' @ toString processedCount' @ js ''/'' @ toString collegeCount @
                      js '' colleges'');
          (events', result) =
            processColleges up jobId universityId major course collegeCount rest colleges' processedCount'
      in (events @ [update] @ events', result))"

definition completedJob :: "jsstring list \<Rightarrow> nat \<Rightarrow> jsstring \<Rightarrow> job" where
  "completedJob colleges processedCount course =
     \<lparr>status = Completed, progress = js ''Done'', applicableColleges = colleges, error = None,
      totalProcessed = Some processedCount, articulatedCount = Some (length colleges),
      summary = Some (js ''Found '' @ toString (length colleges) @
                      js '' colleges that articulate the course '' @ [0x22] @ course @ [0x22]),
      createdAt = None\<rparr>"

text \<open>The job that the first statement of \<^verbatim>\<open>processUniversityPDFs\<close> stores.\<close>

definition initialJob :: job where
  "initialJob =
     \<lparr>status = Processing, progress = js ''Fetching institutions...'', applicableColleges = [],
      error = None, totalProcessed = None, articulatedCount = None, summary = None,
      createdAt = None\<rparr>"

text \<open>
  \<^verbatim>\<open>processUniversityPDFs(jobId, university, major, course)\<close>: the events of the job,
  from the first write to the write of the completed or failed job. Every exception
  outside the loop over the colleges reaches the outer \<^verbatim>\<open>catch\<close>.
\<close>

definition processUniversityPDFs ::
    "upstream \<Rightarrow> jobId \<Rightarrow> jsstring \<Rightarrow> jsstring \<Rightarrow> jsstring \<Rightarrow> event list" where
  "processUniversityPDFs up jobId university major course =
     JobsSet jobId initialJob #
     Await #
     (case institutions_api up of
        Inl message \<Rightarrow> [JobsSet jobId (failedJob message)]
      | Inr institutions \<Rightarrow>
          (case findUniversity institutions university of
             Inl message \<Rightarrow> [JobsSet jobId (failedJob message)]
           | Inr None \<Rightarrow> [JobsSet jobId (failedJob (notFoundMessage university))]
           | Inr (Some universityId) \<Rightarrow>
               if universityId = 0 then [JobsSet jobId (failedJob (notFoundMessage university))]
               else
                 UpdateJobProgress jobId (js ''Fetching agreements...'') #
                 Await #
                 (case agreements_api up universityId of
                    Inl message \<Rightarrow> [JobsSet jobId (failedJob message)]
                  | Inr agreementData \<Rightarrow>
                      (let collegeIds = map institutionParentId agreementData;
                           (events, colleges, processedCount) =
                             processColleges up jobId universityId major course
                               (length collegeIds) collegeIds [] 0
                       in UpdateJobProgress jobId
                            (js ''Processing '' @ toString (length collegeIds) @ js '' colleges...'') #
                          events @ [JobsSet jobId (completedJob colleges processedCount course)]))))"

section \<open>The HTTP handlers\<close>

datatype response =
    Status400 jsstring
  | Started jobId
  | Status404 jsstring
  | JobJson job

text \<open>
  \<^verbatim>\<open>POST /api/process-pdfs\<close>. A missing property of the body is \<open>None\<close>; \<open>newJobId\<close>
  is what \<^verbatim>\<open>generateJobId()\<close> returned. The call of the async function runs its events
  up to the first \<^verbatim>\<open>await\<close> before the handler goes on; the rest of the events is
  pending when the handler responds.
\<close>

definition post_api_process_pdfs ::
    "upstream \<Rightarrow> jobId \<Rightarrow> jsstring option \<Rightarrow> jsstring option \<Rightarrow> jsstring option \<Rightarrow> jobs
      \<Rightarrow> response \<times> jobs \<times> event list" where
  "post_api_process_pdfs up newJobId university major course jobs =
     (case (university, major, course) of
        (Some u, Some m, Some c) \<Rightarrow>
          if u = [] \<or> m = [] \<or> c = [] then
            (Status400 (js ''University, major, and course are required''), jobs, [])
          else
            (let task = processUniversityPDFs up newJobId u m c
             in (Started newJobId,
                 run_events (takeWhile (\<lambda>e. e \<noteq> Await) task) jobs,
                 dropWhile (\<lambda>e. e \<noteq> Await) task))
      | _ \<Rightarrow> (Status400 (js ''University, major, and course are required''), jobs, []))"

text \<open>\<^verbatim>\<open>GET /api/jobs/:jobId\<close>.\<close>

definition get_api_jobs :: "jobs \<Rightarrow> jobId \<Rightarrow> response" where
  "get_api_jobs jobs jobId =
     (case map_of jobs jobId of
        None \<Rightarrow> Status404 (js ''Job not found'')
      | Some job \<Rightarrow> JobJson job)"

text \<open>
  How the store evolves while the server runs: any job may perform any of its events,
  and the cleanup may run at any time. The server starts with the empty store.
\<close>

inductive evolves :: "jobs \<Rightarrow> jobs \<Rightarrow> bool" where
  same: "evolves jobs jobs"
| task: "evolves jobs jobs' \<Longrightarrow> e \<in> set (processUniversityPDFs up jobId university major course)
          \<Longrightarrow> evolves jobs (apply_event e jobs')"
| sweep: "evolves jobs jobs' \<Longrightarrow> evolves jobs (cleanup now jobs')"

definition reachable :: "jobs \<Rightarrow> bool" where
  "reachable jobs \<longleftrightarrow> evolves [] jobs"

section \<open>Notions of the specification\<close>

text \<open>
  The normalization as the specification words it: the code units of the ranges
  0x00 to 0x1F and 0x7F to 0x9F are stripped.
\<close>

definition spec_normalize :: "jsstring \<Rightarrow> jsstring" where
  "spec_normalize s = filter (\<lambda>c. c \<notin> {0x00..0x1F} \<union> {0x7F..0x9F}) s"

text \<open>
  The first occurrence of a string in a text is at position \<open>i\<close>: the string starts
  there, and at no earlier position. That a string occurs in a text at all is
  \<^const>\<open>sublist\<close>.
\<close>

definition first_occurrence :: "jsstring \<Rightarrow> jsstring \<Rightarrow> nat \<Rightarrow> bool" where
  "first_occurrence searchString s i \<longleftrightarrow>
     i \<le> length s \<and> prefix searchString (drop i s) \<and>
     (\<forall>j<i. \<not> prefix searchString (drop j s))"

text \<open>
  White space as the specification means it for trimming: the white space and line
  terminator code points of ECMAScript, as a set. A string \<open>t\<close> is \<open>s\<close> trimmed of
  surrounding white space when \<open>s\<close> is \<open>t\<close> between two runs of white space, and \<open>t\<close>
  neither starts nor ends with white space.
\<close>

definition spec_whitespace :: "jschar \<Rightarrow> bool" where
  "spec_whitespace c \<longleftrightarrow>
     c \<in> {0x09, 0x0A, 0x0B, 0x0C, 0x0D, 0x20, 0xA0, 0x1680, 0x2028, 0x2029, 0x202F, 0x205F,
           0x3000, 0xFEFF} \<union> {0x2000..0x200A}"

definition trimmed_of :: "jsstring \<Rightarrow> jsstring \<Rightarrow> bool" where
  "trimmed_of s t \<longleftrightarrow>
     (\<exists>before after. s = before @ t @ after \<and>
        list_all spec_whitespace before \<and> list_all spec_whitespace after) \<and>
     (t = [] \<or> \<not> spec_whitespace (hd t) \<and> \<not> spec_whitespace (last t))"

text \<open>An entry of the directory matches a name: its first name variant is that name.\<close>

definition entryMatches :: "jsstring \<Rightarrow> institution \<Rightarrow> bool" where
  "entryMatches university institution \<longleftrightarrow>
     (case names institution of [] \<Rightarrow> False | first # _ \<Rightarrow> name first = university)"

text \<open>
  The failures of one partner: a network error of either request, no major with the
  label, a document fetched with a status other than 200, an exception of the parser.
\<close>

definition partnerFails :: "upstream \<Rightarrow> nat \<Rightarrow> jsstring \<Rightarrow> nat \<Rightarrow> bool" where
  "partnerFails up universityId major collegeId \<longleftrightarrow>
     (case majors_api up universityId collegeId of
        Inl message \<Rightarrow> True
      | Inr majorData \<Rightarrow>
          (case List.find (\<lambda>r. label r = major) (case reports majorData of Some rs \<Rightarrow> rs | None \<Rightarrow> []) of
             None \<Rightarrow> True
           | Some majorEntry \<Rightarrow>
               (case artifacts_api up (key majorEntry) of
                  Inl message \<Rightarrow> True
                | Inr pdfResponse \<Rightarrow>
                    status_resp pdfResponse \<noteq> 200 \<or> isl (PDFParser up (data pdfResponse)))))"

text \<open>The status of a job in the store, and the pushes among the events of a job.\<close>

definition statusOf :: "jobs \<Rightarrow> jobId \<Rightarrow> status option" where
  "statusOf jobs jobId = map_option status (map_of jobs jobId)"

fun pushes :: "event list \<Rightarrow> jsstring list" where
  "pushes [] = []"
| "pushes (Push c # events) = c # pushes events"
| "pushes (e # events) = pushes events"

section \<open>Example documents and an example upstream\<close>

text \<open>
  Documents as the parser yields them. The first has a control character inside the
  course code, which the normalization removes.
\<close>

definition ex_text :: jsstring where
  "ex_text = js ''From: SMC 2021 CS'' @ [0x1F] @ js '' 101 '' @ arrow @ js ''Accepted as CS1''"

text \<open>The same document with white space around the college name and after the window.\<close>

definition ex_text_padded :: jsstring where
  "ex_text_padded = js ''From:  SMC  2021 CS 101 '' @ arrow @ js ''Accepted as CS1  ''"

definition ex_text_denied :: jsstring where
  "ex_text_denied = js ''From: SMC 2021 CS 101 '' @ arrow @ js ''No Course Articulated''"

definition ex_text_no_marker :: jsstring where
  "ex_text_no_marker = js ''From: SMC 2021 CS 101 none''"

definition ex_text_no_from :: jsstring where
  "ex_text_no_from = js ''CS 101 '' @ arrow @ js ''Accepted as CS1''"

text \<open>
  An upstream with the given directory and document text: the university has agreements
  with the colleges 5 and 6; the majors of college 5 are listed, the request for college
  6 fails.
\<close>

definition ex_upstream :: "institution list \<Rightarrow> jsstring \<Rightarrow> upstream" where
  "ex_upstream institutions text =
     \<lparr>institutions_api = Inr institutions,
      agreements_api = (\<lambda>universityId. Inr [\<lparr>institutionParentId = 5\<rparr>, \<lparr>institutionParentId = 6\<rparr>]),
      majors_api = (\<lambda>universityId collegeId.
         if collegeId = 5
         then Inr \<lparr>reports = Some [\<lparr>label = js ''Computer Science'', key = js ''k1''\<rparr>]\<rparr>
         else Inl (js ''Network Error'')),
      artifacts_api = (\<lambda>k. Inr \<lparr>status_resp = 200, data = []\<rparr>),
      PDFParser = (\<lambda>pdfBuffer. Inr text)\<rparr>"

definition ex_directory :: "institution list" where
  "ex_directory = [\<lparr>id_inst = 1, names = [\<lparr>name = js ''UCLA''\<rparr>]\<rparr>]"

section \<open>Properties of the string functions\<close>

lemma indexOf_from_minus1: "indexOf_from s n k = - 1 \<longleftrightarrow> \<not> sublist n s"
  by (induction s arbitrary: k) (auto simp: sublist_Cons_right)

lemma first_occurrence_Cons:
  "first_occurrence n (c # cs) i \<longleftrightarrow>
     (if prefix n (c # cs) then i = 0 else 0 < i \<and> first_occurrence n cs (i - 1))"
proof (cases i)
  case 0
  then show ?thesis by (auto simp: first_occurrence_def)
next
  case (Suc m)
  have "(\<forall>j<Suc m. \<not> prefix n (drop j (c # cs))) \<longleftrightarrow>
        (\<not> prefix n (c # cs) \<and> (\<forall>j<m. \<not> prefix n (drop j cs)))"
    by (auto simp: less_Suc_eq_0_disj)
  with Suc show ?thesis by (auto simp: first_occurrence_def)
qed

lemma indexOf_from_first: "first_occurrence n s i \<Longrightarrow> indexOf_from s n k = int (k + i)"
proof (induction s arbitrary: i k)
  case Nil
  then show ?case by (auto simp: first_occurrence_def)
next
  case (Cons c cs)
  then show ?case by (auto simp: first_occurrence_Cons split: if_splits)
qed

lemma indexOf_minus1_iff: "indexOf s n = - 1 \<longleftrightarrow> \<not> sublist n s"
  by (simp add: indexOf_def indexOf_from_minus1)

lemma indexOf_first_occurrence: "first_occurrence n s i \<Longrightarrow> indexOf s n = int i"
  by (simp add: indexOf_def indexOf_from_first)

lemma sublist_first_occurrence: "sublist n s \<Longrightarrow> \<exists>i. first_occurrence n s i"
proof (induction s)
  case Nil
  then show ?case by (auto simp: first_occurrence_def)
next
  case (Cons c cs)
  show ?case
  proof (cases "prefix n (c # cs)")
    case True
    then have "first_occurrence n (c # cs) 0" by (simp add: first_occurrence_Cons)
    then show ?thesis ..
  next
    case False
    with Cons.prems have "sublist n cs" by (simp add: sublist_Cons_right)
    then obtain i where "first_occurrence n cs i" using Cons.IH by blast
    with False have "first_occurrence n (c # cs) (Suc i)" by (simp add: first_occurrence_Cons)
    then show ?thesis ..
  qed
qed

text \<open>\<^const>\<open>indexOf\<close> computes the first occurrence, and \<open>-1\<close> exactly when there is none.\<close>

lemma first_occurrence_iff: "first_occurrence n s i \<longleftrightarrow> indexOf s n = int i"
proof
  assume "first_occurrence n s i"
  then show "indexOf s n = int i" by (rule indexOf_first_occurrence)
next
  assume a: "indexOf s n = int i"
  then have "indexOf s n \<noteq> - 1" by simp
  then have "sublist n s" by (simp add: indexOf_minus1_iff)
  then obtain j where j: "first_occurrence n s j" using sublist_first_occurrence by blast
  then have "indexOf s n = int j" by (rule indexOf_first_occurrence)
  with a have "i = j" by simp
  with j show "first_occurrence n s i" by simp
qed

lemma includes_str_iff: "includes_str s n \<longleftrightarrow> sublist n s"
  by (simp add: includes_str_def indexOf_minus1_iff)

lemma substring_from_nat: "substring_from s (int i) = drop i s"
  by (auto simp: substring_from_def substring_def Let_def min_def max_def)

lemma substring_window: "substring s (int i) (int i + int n) = take n (drop i s)"
  by (auto simp: substring_def Let_def min_def max_def)

lemma substring_0: "substring s 0 (int y - 1) = take (y - 1) s"
proof -
  have "nat (int y - 1) = y - 1" by arith
  then show ?thesis by (cases "y = 0") (auto simp: substring_def Let_def min_def max_def)
qed

lemma take_pred_butlast: "y \<le> length s \<Longrightarrow> take (y - 1) s = butlast (take y s)"
  by (simp add: butlast_take)

lemma removeUnrendered_spec: "removeUnrendered s = spec_normalize s"
  by (simp add: removeUnrendered_def spec_normalize_def unrendered_def)

lemma isWhiteSpace_spec: "isWhiteSpace c \<longleftrightarrow> spec_whitespace c"
  by (auto simp: isWhiteSpace_def spec_whitespace_def)

lemma isWhiteSpace_spec_fun: "isWhiteSpace = spec_whitespace"
  by (rule ext) (rule isWhiteSpace_spec)

text \<open>
  \<^const>\<open>trim\<close> computes the string trimmed of surrounding white space, and that string
  is unique.
\<close>

lemma trimmed_of_trim: "trimmed_of s (trim s)"
proof -
  let ?P = spec_whitespace
  let ?m = "dropWhile ?P s"
  let ?t = "rev (dropWhile ?P (rev ?m))"
  let ?after = "rev (takeWhile ?P (rev ?m))"
  have t: "trim s = ?t" by (simp add: trim_def isWhiteSpace_spec_fun)
  have "?t @ ?after = rev (takeWhile ?P (rev ?m) @ dropWhile ?P (rev ?m))"
    by (simp only: rev_append)
  also have "\<dots> = rev (rev ?m)" by (simp only: takeWhile_dropWhile_id)
  finally have m: "?m = ?t @ ?after" by simp
  have "s = takeWhile ?P s @ ?m" by simp
  with m have split: "s = takeWhile ?P s @ ?t @ ?after" by simp
  have before: "list_all ?P (takeWhile ?P s)"
    by (simp add: list_all_iff) (meson set_takeWhileD)
  have after: "list_all ?P ?after"
    by (simp add: list_all_iff) (meson set_takeWhileD)
  have ends: "\<not> ?P (hd ?t) \<and> \<not> ?P (last ?t)" if ne: "?t \<noteq> []"
  proof -
    from ne have d: "dropWhile ?P (rev ?m) \<noteq> []" by simp
    then have "\<not> ?P (hd (dropWhile ?P (rev ?m)))" by (rule hd_dropWhile)
    then have l: "\<not> ?P (last ?t)" using d by (simp add: last_rev)
    have mne: "?m \<noteq> []"
    proof
      assume "?m = []"
      then have "dropWhile ?P (rev ?m) = []" by (simp only: rev.simps dropWhile.simps)
      with d show False ..
    qed
    then have "\<not> ?P (hd ?m)" by (rule hd_dropWhile)
    moreover have "hd ?m = hd ?t" using m ne by (metis hd_append2)
    ultimately show ?thesis using l by simp
  qed
  show ?thesis
    unfolding trimmed_of_def t using split before after ends by blast
qed

lemma trimmed_of_unique:
  assumes "trimmed_of s t"
  shows "t = trim s"
proof -
  let ?P = spec_whitespace
  from assms obtain before after where
    s: "s = before @ t @ after" and b: "list_all ?P before" and a: "list_all ?P after"
    and e: "t = [] \<or> \<not> ?P (hd t) \<and> \<not> ?P (last t)"
    unfolding trimmed_of_def by blast
  have ts: "trim s = rev (dropWhile ?P (rev (dropWhile ?P s)))"
    by (simp add: trim_def isWhiteSpace_spec_fun)
  have d1: "dropWhile ?P s = dropWhile ?P (t @ after)"
    using b unfolding s by (intro dropWhile_append2) (simp add: list_all_iff)
  show ?thesis
  proof (cases "t = []")
    case True
    then have "dropWhile ?P (t @ after) = []" using a by (simp add: list_all_iff)
    with d1 have "dropWhile ?P s = []" by simp
    then have "trim s = []" unfolding ts by (simp only: rev.simps dropWhile.simps)
    with True show ?thesis by simp
  next
    case False
    with e have h: "\<not> ?P (hd t)" and l: "\<not> ?P (last t)" by simp_all
    from False h have "dropWhile ?P (t @ after) = t @ after" by (cases t) simp_all
    with d1 have d: "dropWhile ?P s = t @ after" by simp
    have "dropWhile ?P (rev after @ rev t) = dropWhile ?P (rev t)"
      using a by (intro dropWhile_append2) (simp add: list_all_iff)
    moreover have "dropWhile ?P (rev t) = rev t"
      using False l by (cases "rev t") (simp_all add: last_rev [symmetric] hd_rev)
    ultimately have "dropWhile ?P (rev (t @ after)) = rev t" by simp
    then show ?thesis unfolding ts d by simp
  qed
qed

lemma trimmed_of_iff: "trimmed_of s t \<longleftrightarrow> t = trim s"
  using trimmed_of_trim trimmed_of_unique by blast

lemma trimmed_ofI:
  assumes "s = before @ t @ after"
    and "list_all spec_whitespace before" and "list_all spec_whitespace after"
    and "\<not> spec_whitespace (hd t)" and "\<not> spec_whitespace (last t)"
  shows "trimmed_of s t"
  unfolding trimmed_of_def using assms by blast

section \<open>Properties of the articulation check\<close>

lemma checkText_found:
  assumes "first_occurrence (removeUnrendered course) (removeUnrendered text) i"
  shows "checkText text course k =
     (let cleanText = removeUnrendered text;
          afterCourse = drop (i + length (removeUnrendered course)) cleanText;
          arrowIndex = indexOf afterCourse arrow;
          negative = \<lparr>college = collegeOf cleanText, isArticulated = False,
                      articulatedCourse = None, key_cc = k, error_cc = None\<rparr>
      in if arrowIndex \<noteq> - 1 then
           (let articulatedSection = substring afterCourse arrowIndex (arrowIndex + 30)
            in if \<not> list_ex (\<lambda>phrase. includes_str articulatedSection phrase) notArticulated
               then \<lparr>college = collegeOf cleanText, isArticulated = True,
                     articulatedCourse = Some (trim articulatedSection),
                     key_cc = k, error_cc = None\<rparr>
               else negative)
         else negative)"
proof -
  have "indexOf (removeUnrendered text) (removeUnrendered course) = int i"
    using assms by (rule indexOf_first_occurrence)
  moreover have "int i + int (length (removeUnrendered course)) =
      int (i + length (removeUnrendered course))" by simp
  ultimately show ?thesis
    unfolding checkText_def Let_def
    by (simp only: substring_from_nat) simp
qed

text \<open>The example documents, normalized and searched.\<close>

lemma ex_text_normalized:
  "spec_normalize ex_text = js ''From: SMC 2021 CS 101 '' @ arrow @ js ''Accepted as CS1''"
  by (simp add: spec_normalize_def js_def ex_text_def arrow_def)

lemma ex_text_padded_normalized: "spec_normalize ex_text_padded = ex_text_padded"
  by (simp add: spec_normalize_def js_def ex_text_padded_def arrow_def)

lemma ex_text_denied_normalized: "spec_normalize ex_text_denied = ex_text_denied"
  by (simp add: spec_normalize_def js_def ex_text_denied_def arrow_def)

lemma ex_text_no_marker_normalized: "spec_normalize ex_text_no_marker = ex_text_no_marker"
  by (simp add: spec_normalize_def js_def ex_text_no_marker_def)

lemma ex_text_no_from_normalized: "spec_normalize ex_text_no_from = ex_text_no_from"
  by (simp add: spec_normalize_def js_def ex_text_no_from_def arrow_def)

lemma ex_course_normalized: "spec_normalize (js ''CS 101'') = js ''CS 101''"
  by (simp add: spec_normalize_def js_def)

text \<open>
  C3. When the normalized course code does not occur in the normalized text of the
  document, the check returns not articulated, no articulated text, and no error.
\<close>

theorem course_absent_not_articulated:
  assumes "parse pdfBuffer = Inr text"
    and "\<not> sublist (spec_normalize course) (spec_normalize text)"
  shows "isArticulated (checkCourseArticulation parse pdfBuffer course k) = False \<and>
         articulatedCourse (checkCourseArticulation parse pdfBuffer course k) = None \<and>
         error_cc (checkCourseArticulation parse pdfBuffer course k) = None"
  using assms
  by (simp add: checkCourseArticulation_def checkText_def Let_def indexOf_minus1_iff
      removeUnrendered_spec)

theorem course_absent_not_articulated_witness:
  "(\<lambda>b. Inr ex_text) ([] :: buffer) = (Inr ex_text :: jsstring + jsstring) \<and>
   \<not> sublist (spec_normalize (js ''MATH 1'')) (spec_normalize ex_text) \<and>
   isArticulated (checkCourseArticulation (\<lambda>b. Inr ex_text) [] (js ''MATH 1'') (js ''k1'')) = False \<and>
   articulatedCourse (checkCourseArticulation (\<lambda>b. Inr ex_text) [] (js ''MATH 1'') (js ''k1'')) = None \<and>
   error_cc (checkCourseArticulation (\<lambda>b. Inr ex_text) [] (js ''MATH 1'') (js ''k1'')) = None"
proof -
  have "spec_normalize (js ''MATH 1'') = js ''MATH 1''"
    by (simp add: spec_normalize_def js_def)
  moreover have "\<not> sublist (js ''MATH 1'') (spec_normalize ex_text)"
    unfolding ex_text_normalized by (simp add: js_def arrow_def sublist_code)
  ultimately have h: "\<not> sublist (spec_normalize (js ''MATH 1'')) (spec_normalize ex_text)"
    by simp
  show ?thesis
    using h course_absent_not_articulated
      [of "\<lambda>b. Inr ex_text" "[]" ex_text "js ''MATH 1''" "js ''k1''"]
    by simp
qed

text \<open>
  C4. When the normalized course code occurs in the normalized text, but the marker does
  not occur in the text that follows the first occurrence of the course code, the check
  returns not articulated.
\<close>

theorem no_marker_not_articulated:
  assumes "parse pdfBuffer = Inr text"
    and "first_occurrence (spec_normalize course) (spec_normalize text) i"
    and "\<not> sublist arrow (drop (i + length (spec_normalize course)) (spec_normalize text))"
  shows "isArticulated (checkCourseArticulation parse pdfBuffer course k) = False"
  using assms
  by (simp add: checkCourseArticulation_def checkText_found removeUnrendered_spec [symmetric]
      Let_def indexOf_minus1_iff)

theorem no_marker_not_articulated_witness:
  "(\<lambda>b. Inr ex_text_no_marker) ([] :: buffer) = (Inr ex_text_no_marker :: jsstring + jsstring) \<and>
   first_occurrence (spec_normalize (js ''CS 101'')) (spec_normalize ex_text_no_marker) 15 \<and>
   \<not> sublist arrow (drop (15 + length (spec_normalize (js ''CS 101'')))
                    (spec_normalize ex_text_no_marker)) \<and>
   isArticulated (checkCourseArticulation (\<lambda>b. Inr ex_text_no_marker) [] (js ''CS 101'') (js ''k1''))
     = False"
proof -
  have f: "first_occurrence (spec_normalize (js ''CS 101'')) (spec_normalize ex_text_no_marker) 15"
    unfolding ex_course_normalized ex_text_no_marker_normalized first_occurrence_iff
    by (simp add: js_def ex_text_no_marker_def indexOf_def)
  have m: "\<not> sublist arrow (drop (15 + length (spec_normalize (js ''CS 101'')))
                    (spec_normalize ex_text_no_marker))"
    unfolding ex_course_normalized ex_text_no_marker_normalized
    by (simp add: js_def ex_text_no_marker_def arrow_def sublist_code)
  show ?thesis
    using f m no_marker_not_articulated
      [of "\<lambda>b. Inr ex_text_no_marker" "[]" ex_text_no_marker "js ''CS 101''" 15 "js ''k1''"]
    by simp
qed

text \<open>
  C5. When the course code is found and a marker follows it, the window is the 30 code
  units from the first marker on (fewer when the text ends). If the window contains one
  of the three negative phrases the check returns not articulated; otherwise it returns
  articulated, and the articulated text is the window trimmed of surrounding white space
  (that string and no other).
\<close>

theorem window_decides:
  assumes "parse pdfBuffer = Inr text"
    and "first_occurrence (spec_normalize course) (spec_normalize text) i"
    and "first_occurrence arrow (drop (i + length (spec_normalize course)) (spec_normalize text)) a"
    and "window = take 30 (drop a (drop (i + length (spec_normalize course)) (spec_normalize text)))"
  shows "if sublist (js ''No Course Articulated'') window \<or>
            sublist (js ''No Comparable Course'') window \<or>
            sublist (js ''Course(s) Denied'') window
         then isArticulated (checkCourseArticulation parse pdfBuffer course k) = False
         else isArticulated (checkCourseArticulation parse pdfBuffer course k) = True \<and>
              (\<forall>t. articulatedCourse (checkCourseArticulation parse pdfBuffer course k) = Some t
                     \<longleftrightarrow> trimmed_of window t)"
proof -
  let ?after = "drop (i + length (removeUnrendered course)) (removeUnrendered text)"
  have a: "indexOf ?after arrow = int a"
    using assms(3) by (simp add: removeUnrendered_spec indexOf_first_occurrence)
  have w: "substring ?after (int a) (int a + 30) = window"
    using substring_window [of ?after a 30] assms(4) by (simp add: removeUnrendered_spec)
  have f: "first_occurrence (removeUnrendered course) (removeUnrendered text) i"
    using assms(2) by (simp add: removeUnrendered_spec)
  show ?thesis
    using assms(1)
    by (auto simp: checkCourseArticulation_def checkText_found [OF f] Let_def a w
        notArticulated_def includes_str_iff trimmed_of_iff)
qed

theorem window_decides_witness:
  "(\<lambda>b. Inr ex_text_padded) ([] :: buffer) = (Inr ex_text_padded :: jsstring + jsstring) \<and>
   first_occurrence (spec_normalize (js ''CS 101'')) (spec_normalize ex_text_padded) 17 \<and>
   first_occurrence arrow
     (drop (17 + length (spec_normalize (js ''CS 101''))) (spec_normalize ex_text_padded)) 1 \<and>
   arrow @ js ''Accepted as CS1  '' =
     take 30 (drop 1 (drop (17 + length (spec_normalize (js ''CS 101'')))
       (spec_normalize ex_text_padded))) \<and>
   \<not> sublist (js ''No Course Articulated'') (arrow @ js ''Accepted as CS1  '') \<and>
   \<not> sublist (js ''No Comparable Course'') (arrow @ js ''Accepted as CS1  '') \<and>
   \<not> sublist (js ''Course(s) Denied'') (arrow @ js ''Accepted as CS1  '') \<and>
   trimmed_of (arrow @ js ''Accepted as CS1  '') (arrow @ js ''Accepted as CS1'') \<and>
   arrow @ js ''Accepted as CS1  '' \<noteq> arrow @ js ''Accepted as CS1'' \<and>
   isArticulated (checkCourseArticulation (\<lambda>b. Inr ex_text_padded) [] (js ''CS 101'') (js ''k1''))
     = True \<and>
   articulatedCourse (checkCourseArticulation (\<lambda>b. Inr ex_text_padded) [] (js ''CS 101'') (js ''k1''))
     = Some (arrow @ js ''Accepted as CS1'') \<and>
   first_occurrence (spec_normalize (js ''CS 101'')) (spec_normalize ex_text_denied) 15 \<and>
   first_occurrence arrow
     (drop (15 + length (spec_normalize (js ''CS 101''))) (spec_normalize ex_text_denied)) 1 \<and>
   arrow @ js ''No Course Articulated'' =
     take 30 (drop 1 (drop (15 + length (spec_normalize (js ''CS 101'')))
       (spec_normalize ex_text_denied))) \<and>
   sublist (js ''No Course Articulated'') (arrow @ js ''No Course Articulated'') \<and>
   isArticulated (checkCourseArticulation (\<lambda>b. Inr ex_text_denied) [] (js ''CS 101'') (js ''k1''))
     = False"
proof -
  have f': "first_occurrence (spec_normalize (js ''CS 101'')) (spec_normalize ex_text_denied) 15"
    unfolding ex_course_normalized ex_text_denied_normalized first_occurrence_iff
    by (simp add: js_def arrow_def ex_text_denied_def indexOf_def)
  have a': "first_occurrence arrow
     (drop (15 + length (spec_normalize (js ''CS 101''))) (spec_normalize ex_text_denied)) 1"
    unfolding ex_course_normalized ex_text_denied_normalized first_occurrence_iff
    by (simp add: js_def arrow_def ex_text_denied_def indexOf_def)
  have w': "arrow @ js ''No Course Articulated'' =
     take 30 (drop 1 (drop (15 + length (spec_normalize (js ''CS 101'')))
       (spec_normalize ex_text_denied)))"
    unfolding ex_course_normalized ex_text_denied_normalized
    by (simp add: js_def arrow_def ex_text_denied_def)
  have d: "sublist (js ''No Course Articulated'') (arrow @ js ''No Course Articulated'')"
    by simp
  have denied: "isArticulated
      (checkCourseArticulation (\<lambda>b. Inr ex_text_denied) [] (js ''CS 101'') (js ''k1'')) = False"
    using f' a' w' d window_decides
      [of "\<lambda>b. Inr ex_text_denied" "[]" ex_text_denied "js ''CS 101''" 15 1
          "arrow @ js ''No Course Articulated''" "js ''k1''"]
    by simp
  have f: "first_occurrence (spec_normalize (js ''CS 101'')) (spec_normalize ex_text_padded) 17"
    unfolding ex_course_normalized ex_text_padded_normalized first_occurrence_iff
    by (simp add: js_def arrow_def ex_text_padded_def indexOf_def)
  have a: "first_occurrence arrow
     (drop (17 + length (spec_normalize (js ''CS 101''))) (spec_normalize ex_text_padded)) 1"
    unfolding ex_course_normalized ex_text_padded_normalized first_occurrence_iff
    by (simp add: js_def arrow_def ex_text_padded_def indexOf_def)
  have w: "arrow @ js ''Accepted as CS1  '' =
     take 30 (drop 1 (drop (17 + length (spec_normalize (js ''CS 101'')))
       (spec_normalize ex_text_padded)))"
    unfolding ex_course_normalized ex_text_padded_normalized
    by (simp add: js_def arrow_def ex_text_padded_def)
  have n: "\<not> sublist (js ''No Course Articulated'') (arrow @ js ''Accepted as CS1  '')"
    "\<not> sublist (js ''No Comparable Course'') (arrow @ js ''Accepted as CS1  '')"
    "\<not> sublist (js ''Course(s) Denied'') (arrow @ js ''Accepted as CS1  '')"
    by (simp_all add: js_def arrow_def sublist_code)
  have t: "trimmed_of (arrow @ js ''Accepted as CS1  '') (arrow @ js ''Accepted as CS1'')"
    by (rule trimmed_ofI [of _ "[]" _ "js ''  ''"])
       (simp_all add: js_def arrow_def spec_whitespace_def)
  have ne: "arrow @ js ''Accepted as CS1  '' \<noteq> arrow @ js ''Accepted as CS1''"
    by (simp add: js_def)
  have accepted: "isArticulated
      (checkCourseArticulation (\<lambda>b. Inr ex_text_padded) [] (js ''CS 101'') (js ''k1'')) = True \<and>
     articulatedCourse (checkCourseArticulation (\<lambda>b. Inr ex_text_padded) [] (js ''CS 101'') (js ''k1''))
       = Some (arrow @ js ''Accepted as CS1'')"
    using f a w n t window_decides
      [of "\<lambda>b. Inr ex_text_padded" "[]" ex_text_padded "js ''CS 101''" 17 1
          "arrow @ js ''Accepted as CS1  ''" "js ''k1''"]
    by simp
  show ?thesis
    using f a w n t ne accepted f' a' w' d denied by simp
qed

text \<open>
  C6. When \<^verbatim>\<open>From:\<close> occurs in the normalized text, the college is taken from the text
  that starts 6 code units after its first occurrence: the part that ends one code unit
  before the first \<^verbatim>\<open>2\<close> (all that precedes the digit, without its last code unit),
  trimmed of surrounding white space (that string and no other). When \<^verbatim>\<open>From:\<close> does
  not occur, or no \<^verbatim>\<open>2\<close> occurs in the text after it, the college is the empty string.
\<close>

theorem college_from_marker:
  assumes "parse pdfBuffer = Inr text"
  shows "(\<forall>i. first_occurrence (js ''From:'') (spec_normalize text) i \<longrightarrow>
            (\<forall>y. first_occurrence (js ''2'') (drop (i + 6) (spec_normalize text)) y \<longrightarrow>
                 (\<forall>t. college (checkCourseArticulation parse pdfBuffer course k) = t \<longleftrightarrow>
                       trimmed_of (take (y - 1) (drop (i + 6) (spec_normalize text))) t) \<and>
                 take (y - 1) (drop (i + 6) (spec_normalize text)) =
                   butlast (take y (drop (i + 6) (spec_normalize text)))) \<and>
            (\<not> sublist (js ''2'') (drop (i + 6) (spec_normalize text)) \<longrightarrow>
                 college (checkCourseArticulation parse pdfBuffer course k) = [])) \<and>
         (\<not> sublist (js ''From:'') (spec_normalize text) \<longrightarrow>
            college (checkCourseArticulation parse pdfBuffer course k) = [])"
proof -
  have c: "college (checkCourseArticulation parse pdfBuffer course k) =
      collegeOf (spec_normalize text)"
    using assms
    by (simp add: checkCourseArticulation_def checkText_def Let_def removeUnrendered_spec)
  have absent: "collegeOf T = []" if "\<not> sublist (js ''From:'') T" for T
    using that by (simp add: collegeOf_def indexOf_minus1_iff)
  have present: "collegeOf T =
      (let afterFrom = drop (i + 6) T; yearIndex = indexOf afterFrom (js ''2'')
       in if yearIndex \<noteq> - 1 then trim (substring afterFrom 0 (yearIndex - 1)) else [])"
    if "first_occurrence (js ''From:'') T i" for T i
  proof -
    have "indexOf T (js ''From:'') = int i" using that by (rule indexOf_first_occurrence)
    moreover have "int i + 6 = int (i + 6)" by simp
    ultimately show ?thesis
      unfolding collegeOf_def Let_def by (simp only: substring_from_nat) simp
  qed
  have noyear: "collegeOf T = []"
    if "first_occurrence (js ''From:'') T i" "\<not> sublist (js ''2'') (drop (i + 6) T)" for T i
    using that by (simp add: present Let_def indexOf_minus1_iff)
  have year: "collegeOf T = t \<longleftrightarrow> trimmed_of (take (y - 1) (drop (i + 6) T)) t"
    if "first_occurrence (js ''From:'') T i" "first_occurrence (js ''2'') (drop (i + 6) T) y"
    for T i y t
  proof -
    have "collegeOf T = trim (take (y - 1) (drop (i + 6) T))"
      using that by (simp add: present Let_def indexOf_first_occurrence substring_0)
    then show ?thesis by (auto simp: trimmed_of_iff)
  qed
  have cut: "take (y - 1) A = butlast (take y A)" if "first_occurrence (js ''2'') A y" for A y
    using that take_pred_butlast [of y A] by (simp add: first_occurrence_def)
  show ?thesis
    unfolding c using absent noyear year cut by blast
qed

theorem college_from_marker_witness:
  "(\<lambda>b. Inr ex_text_padded) ([] :: buffer) = (Inr ex_text_padded :: jsstring + jsstring) \<and>
   first_occurrence (js ''From:'') (spec_normalize ex_text_padded) 0 \<and>
   first_occurrence (js ''2'') (drop (0 + 6) (spec_normalize ex_text_padded)) 6 \<and>
   take (6 - 1) (drop (0 + 6) (spec_normalize ex_text_padded)) = js '' SMC '' \<and>
   trimmed_of (js '' SMC '') (js ''SMC'') \<and>
   college (checkCourseArticulation (\<lambda>b. Inr ex_text_padded) [] (js ''CS 101'') (js ''k1''))
     = js ''SMC'' \<and>
   \<not> sublist (js ''From:'') (spec_normalize ex_text_no_from) \<and>
   college (checkCourseArticulation (\<lambda>b. Inr ex_text_no_from) [] (js ''CS 101'') (js ''k1'')) = []"
proof -
  have f: "first_occurrence (js ''From:'') (spec_normalize ex_text_padded) 0"
    unfolding ex_text_padded_normalized first_occurrence_iff
    by (simp add: js_def arrow_def ex_text_padded_def indexOf_def)
  have y: "first_occurrence (js ''2'') (drop (0 + 6) (spec_normalize ex_text_padded)) 6"
    unfolding ex_text_padded_normalized first_occurrence_iff
    by (simp add: js_def arrow_def ex_text_padded_def indexOf_def)
  have cut: "take (6 - 1) (drop (0 + 6) (spec_normalize ex_text_padded)) = js '' SMC ''"
    unfolding ex_text_padded_normalized
    by (simp add: js_def arrow_def ex_text_padded_def)
  have t: "trimmed_of (js '' SMC '') (js ''SMC'')"
    by (rule trimmed_ofI [of _ "js '' ''" _ "js '' ''"])
       (simp_all add: js_def spec_whitespace_def)
  from college_from_marker
    [of "\<lambda>b. Inr ex_text_padded" "[]" ex_text_padded "js ''CS 101''" "js ''k1''"] f y
  have "\<forall>t. college (checkCourseArticulation (\<lambda>b. Inr ex_text_padded) [] (js ''CS 101'') (js ''k1''))
            = t \<longleftrightarrow>
          trimmed_of (take (6 - 1) (drop (0 + 6) (spec_normalize ex_text_padded))) t"
    by blast
  with t have c1: "college
      (checkCourseArticulation (\<lambda>b. Inr ex_text_padded) [] (js ''CS 101'') (js ''k1'')) = js ''SMC''"
    unfolding cut by blast
  have n: "\<not> sublist (js ''From:'') (spec_normalize ex_text_no_from)"
    unfolding ex_text_no_from_normalized
    by (simp add: js_def arrow_def ex_text_no_from_def sublist_code)
  have c2: "college (checkCourseArticulation (\<lambda>b. Inr ex_text_no_from) [] (js ''CS 101'') (js ''k1''))
      = []"
    using n college_from_marker
      [of "\<lambda>b. Inr ex_text_no_from" "[]" ex_text_no_from "js ''CS 101''" "js ''k1''"]
    by simp
  show ?thesis using f y cut t n c1 c2 by simp
qed

section \<open>Properties of the store and of the events of a job\<close>

lemma run_events_append: "run_events (xs @ ys) jobs = run_events ys (run_events xs jobs)"
  by (simp add: run_events_def)

lemma run_events_Cons: "run_events (e # es) jobs = run_events es (apply_event e jobs)"
  by (simp add: run_events_def)

lemma run_events_Nil: "run_events [] jobs = jobs"
  by (simp add: run_events_def)

lemma map_of_update_same: "map_of (AList.update k v al) k = Some v"
  by (simp add: update_conv')

lemma map_of_updateJobProgress:
  "map_of (updateJobProgress k p jobs) k' =
     (if k' = k then map_option (\<lambda>job. job\<lparr>progress := p\<rparr>) (map_of jobs k) else map_of jobs k')"
  by (simp add: updateJobProgress_def update_conv' split: option.splits)

lemma statusOf_apply_quiet: "\<not> isJobsSet e \<Longrightarrow> statusOf (apply_event e jobs) k = statusOf jobs k"
  by (cases e) (auto simp: statusOf_def map_of_updateJobProgress option.map_comp comp_def)

lemma statusOf_run_quiet:
  "\<forall>e\<in>set es. \<not> isJobsSet e \<Longrightarrow> statusOf (run_events es jobs) k = statusOf jobs k"
  by (induction es arbitrary: jobs) (simp_all add: run_events_Nil run_events_Cons statusOf_apply_quiet)

lemma map_of_run_last: "map_of (run_events (es @ [JobsSet k j]) jobs) k = Some j"
  by (simp add: run_events_append run_events_Cons run_events_Nil map_of_update_same)

lemma pushes_append: "pushes (xs @ ys) = pushes xs @ pushes ys"
  by (induction xs rule: pushes.induct) simp_all

lemma findMajor_find: "findMajor rs major = List.find (\<lambda>r. label r = major) rs"
  by (induction rs) simp_all

lemma processCollege_events:
  "e \<in> set (fst (processCollege up uid major course cid colleges)) \<Longrightarrow> \<not> isJobsSet e"
  by (auto simp: processCollege_def Let_def split: sum.splits option.splits if_splits)

lemma processCollege_pushes:
  "snd (processCollege up uid major course cid colleges) =
     colleges @ pushes (fst (processCollege up uid major course cid colleges))"
  by (simp add: processCollege_def Let_def split: sum.splits option.splits)

lemma processCollege_fst:
  "fst (processCollege up uid major course cid colleges) =
     fst (processCollege up uid major course cid [])"
  by (simp add: processCollege_def Let_def split: sum.splits option.splits)

lemma processCollege_snd:
  "snd (processCollege up uid major course cid colleges) =
     colleges @ snd (processCollege up uid major course cid [])"
  by (simp add: processCollege_def Let_def split: sum.splits option.splits)

lemma processColleges_Cons:
  "processColleges up jobId uid major course N (cid # rest) colleges n =
     (fst (processCollege up uid major course cid colleges) @
      [UpdateJobProgress jobId
         (js ''Processed '' @ toString (Suc n) @ js ''/'' @ toString N @ js '' colleges'')] @
      fst (processColleges up jobId uid major course N rest
             (snd (processCollege up uid major course cid colleges)) (Suc n)),
      snd (processColleges up jobId uid major course N rest
             (snd (processCollege up uid major course cid colleges)) (Suc n)))"
  by (simp add: Let_def split: prod.splits)

lemma processColleges_events:
  "e \<in> set (fst (processColleges up jobId uid major course N cids colleges n)) \<Longrightarrow> \<not> isJobsSet e"
proof (induction cids arbitrary: colleges n)
  case Nil
  then show ?case by simp
next
  case (Cons cid rest)
  then show ?case
    unfolding processColleges_Cons
    by (auto dest: processCollege_events)
qed

lemma processColleges_result:
  "snd (processColleges up jobId uid major course N cids colleges n) =
     (colleges @ concat (map (\<lambda>cid. snd (processCollege up uid major course cid [])) cids),
      n + length cids)"
proof (induction cids arbitrary: colleges n)
  case Nil
  then show ?case by simp
next
  case (Cons cid rest)
  show ?case
    unfolding processColleges_Cons
    by (simp add: Cons.IH) (simp add: processCollege_snd [of _ _ _ _ _ colleges])
qed

lemma processColleges_pushes:
  "fst (snd (processColleges up jobId uid major course N cids colleges n)) =
     colleges @ pushes (fst (processColleges up jobId uid major course N cids colleges n))"
proof (induction cids arbitrary: colleges n)
  case Nil
  then show ?case by simp
next
  case (Cons cid rest)
  show ?case
    unfolding processColleges_Cons
    by (simp add: Cons.IH pushes_append) (simp add: processCollege_pushes [of _ _ _ _ _ colleges])
qed


lemma task_completed:
  assumes "institutions_api up = Inr institutions"
    and "findUniversity institutions university = Inr (Some universityId)"
    and "universityId \<noteq> 0"
    and "agreements_api up universityId = Inr agreementData"
  shows "processUniversityPDFs up jobId university major course =
     JobsSet jobId initialJob # Await #
     UpdateJobProgress jobId (js ''Fetching agreements...'') # Await #
     UpdateJobProgress jobId
       (js ''Processing '' @ toString (length agreementData) @ js '' colleges...'') #
     fst (processColleges up jobId universityId major course (length agreementData)
            (map institutionParentId agreementData) [] 0) @
     [JobsSet jobId
        (completedJob
           (concat (map (\<lambda>cid. snd (processCollege up universityId major course cid []))
              (map institutionParentId agreementData)))
           (length agreementData) course)]"
proof -
  let ?loop = "processColleges up jobId universityId major course (length agreementData)
      (map institutionParentId agreementData) [] 0"
  obtain events colleges n where loop: "?loop = (events, colleges, n)"
    by (cases ?loop) auto
  have "snd ?loop = (colleges, n)" by (simp add: loop)
  then have "colleges = concat (map (\<lambda>cid. snd (processCollege up universityId major course cid []))
      (map institutionParentId agreementData))" and "n = length agreementData"
    by (simp_all add: processColleges_result)
  then show ?thesis
    using assms loop by (simp add: processUniversityPDFs_def Let_def)
qed

lemma task_shape:
  obtains mid final where
    "processUniversityPDFs up jobId university major course =
       JobsSet jobId initialJob # Await # mid @ [JobsSet jobId final]"
    and "\<forall>e\<in>set mid. \<not> isJobsSet e"
    and "createdAt final = None"
    and "status final = Failed \<and> applicableColleges final = [] \<and> totalProcessed final = None \<or>
         status final = Completed \<and> applicableColleges final = pushes mid \<and>
         articulatedCount final = Some (length (applicableColleges final))"
proof (cases "institutions_api up")
  case (Inl message)
  show ?thesis
    by (rule that [of "[]" "failedJob message"])
       (simp_all add: processUniversityPDFs_def Inl failedJob_def)
next
  case (Inr institutions)
  show ?thesis
  proof (cases "findUniversity institutions university")
    case (Inl message)
    show ?thesis
      by (rule that [of "[]" "failedJob message"])
         (simp_all add: processUniversityPDFs_def Inr Inl failedJob_def)
  next
    case found: (Inr result)
    show ?thesis
    proof (cases "\<exists>universityId. result = Some universityId \<and> universityId \<noteq> 0")
      case False
      then have "processUniversityPDFs up jobId university major course =
          JobsSet jobId initialJob # Await # [] @ [JobsSet jobId (failedJob (notFoundMessage university))]"
        by (cases result) (auto simp: processUniversityPDFs_def Inr found)
      then show ?thesis
        by (rule that) (simp_all add: failedJob_def)
    next
      case True
      then obtain universityId where u: "result = Some universityId" "universityId \<noteq> 0"
        by blast
      show ?thesis
      proof (cases "agreements_api up universityId")
        case (Inl message)
        show ?thesis
          by (rule that [of "[UpdateJobProgress jobId (js ''Fetching agreements...''), Await]"
                "failedJob message"])
             (simp_all add: processUniversityPDFs_def Inr found u Inl failedJob_def)
      next
        case agreements: (Inr agreementData)
        let ?loop = "processColleges up jobId universityId major course (length agreementData)
            (map institutionParentId agreementData) [] 0"
        let ?mid = "UpdateJobProgress jobId (js ''Fetching agreements...'') # Await #
            UpdateJobProgress jobId
              (js ''Processing '' @ toString (length agreementData) @ js '' colleges...'') #
            fst ?loop"
        let ?final = "completedJob
           (concat (map (\<lambda>cid. snd (processCollege up universityId major course cid []))
              (map institutionParentId agreementData)))
           (length agreementData) course"
        have shape: "processUniversityPDFs up jobId university major course =
            JobsSet jobId initialJob # Await # ?mid @ [JobsSet jobId ?final]"
          using task_completed [OF Inr _ u(2) agreements, of university jobId major course]
          by (simp add: found u)
        have quiet: "\<forall>e\<in>set ?mid. \<not> isJobsSet e"
          by (auto dest: processColleges_events)
        have "fst (snd ?loop) = pushes (fst ?loop)"
          using processColleges_pushes [of up jobId universityId major course
              "length agreementData" "map institutionParentId agreementData" "[]" 0]
          by simp
        then have p: "applicableColleges ?final = pushes ?mid"
          by (simp add: completedJob_def processColleges_result)
        show ?thesis
        proof (rule that [OF shape quiet])
          show "createdAt ?final = None" by (simp add: completedJob_def)
          have "status ?final = Completed" "articulatedCount ?final = Some (length (applicableColleges ?final))"
            by (simp_all add: completedJob_def)
          with p show "status ?final = Failed \<and> applicableColleges ?final = [] \<and> totalProcessed ?final = None \<or>
             status ?final = Completed \<and> applicableColleges ?final = pushes ?mid \<and>
             articulatedCount ?final = Some (length (applicableColleges ?final))"
            by blast
        qed
      qed
    qed
  qed
qed

section \<open>The cleanup\<close>

lemma set_update_subset: "set (AList.update k v al) \<subseteq> insert (k, v) (set al)"
  by (induction al) auto

lemma createdAt_update:
  "\<forall>(k, j)\<in>set jobs. createdAt j = None \<Longrightarrow> createdAt job = None
    \<Longrightarrow> \<forall>(k, j)\<in>set (AList.update jobId job jobs). createdAt j = None"
  using set_update_subset [of jobId job jobs] by auto

lemma createdAt_updateJobProgress:
  "\<forall>(k, j)\<in>set jobs. createdAt j = None
    \<Longrightarrow> \<forall>(k, j)\<in>set (updateJobProgress jobId p jobs). createdAt j = None"
proof (cases "map_of jobs jobId")
  case None
  assume "\<forall>(k, j)\<in>set jobs. createdAt j = None"
  with None show ?thesis by (simp add: updateJobProgress_def)
next
  case (Some job)
  assume a: "\<forall>(k, j)\<in>set jobs. createdAt j = None"
  from Some have "(jobId, job) \<in> set jobs" by (rule map_of_SomeD)
  with a have "createdAt job = None" by auto
  then have "createdAt (job\<lparr>progress := p\<rparr>) = None" by simp
  with a have "\<forall>(k, j)\<in>set (AList.update jobId (job\<lparr>progress := p\<rparr>) jobs). createdAt j = None"
    by (rule createdAt_update)
  with Some show ?thesis by (simp add: updateJobProgress_def)
qed

lemma task_event_createdAt:
  assumes "e \<in> set (processUniversityPDFs up jobId university major course)"
    and "e = JobsSet k j"
  shows "createdAt j = None"
proof -
  obtain mid final where
    shape: "processUniversityPDFs up jobId university major course =
       JobsSet jobId initialJob # Await # mid @ [JobsSet jobId final]"
    and quiet: "\<forall>e\<in>set mid. \<not> isJobsSet e"
    and final: "createdAt final = None"
    by (rule task_shape)
  from assms shape have "j = initialJob \<or> e \<in> set mid \<or> j = final" by auto
  with quiet final assms(2) show ?thesis by (auto simp: initialJob_def)
qed

lemma createdAt_apply_event:
  assumes "e \<in> set (processUniversityPDFs up jobId university major course)"
    and "\<forall>(k, j)\<in>set jobs. createdAt j = None"
  shows "\<forall>(k, j)\<in>set (apply_event e jobs). createdAt j = None"
proof (cases e)
  case (JobsSet k j)
  with assms(1) have "createdAt j = None" by (rule task_event_createdAt)
  with assms(2) JobsSet show ?thesis by (simp add: createdAt_update)
next
  case (UpdateJobProgress k p)
  with assms(2) show ?thesis by (simp add: createdAt_updateJobProgress)
next
  case Await
  with assms(2) show ?thesis by simp
next
  case (Push c)
  with assms(2) show ?thesis by simp
qed

lemma fold_cleanup_inert:
  "\<forall>(k, j)\<in>set entries. createdAt j = None \<Longrightarrow>
   fold (\<lambda>(jobId, job) js.
           if (case createdAt job of Some t \<Rightarrow> t \<noteq> 0 \<and> t < h | None \<Rightarrow> False)
           then AList.delete jobId js else js) entries jobs = jobs"
  by (induction entries arbitrary: jobs) auto

lemma cleanup_inert: "\<forall>(k, j)\<in>set jobs. createdAt j = None \<Longrightarrow> cleanup now jobs = jobs"
  by (simp add: cleanup_def Let_def fold_cleanup_inert)

lemma evolves_createdAt:
  "evolves jobs jobs' \<Longrightarrow> \<forall>(k, j)\<in>set jobs. createdAt j = None
    \<Longrightarrow> \<forall>(k, j)\<in>set jobs'. createdAt j = None"
proof (induction rule: evolves.induct)
  case (same jobs)
  then show ?case .
next
  case (task jobs jobs' e up jobId university major course)
  then show ?case using createdAt_apply_event by blast
next
  case (sweep jobs jobs' now)
  then show ?case by (simp add: cleanup_inert)
qed

lemma keys_apply_event: "k \<in> fst ` set jobs \<Longrightarrow> k \<in> fst ` set (apply_event e jobs)"
  by (cases e) (auto simp: dom_update updateJobProgress_def split: option.splits)

lemma evolves_keeps_job:
  "evolves jobs jobs' \<Longrightarrow> \<forall>(k, j)\<in>set jobs. createdAt j = None \<Longrightarrow> k \<in> fst ` set jobs
    \<Longrightarrow> k \<in> fst ` set jobs'"
proof (induction rule: evolves.induct)
  case (same jobs)
  then show ?case by simp
next
  case (task jobs jobs' e up jobId university major course)
  then show ?case by (simp add: keys_apply_event)
next
  case (sweep jobs jobs' now)
  then have "\<forall>(k, j)\<in>set jobs'. createdAt j = None" using evolves_createdAt by blast
  then have "cleanup now jobs' = jobs'" by (rule cleanup_inert)
  with sweep show ?case by simp
qed

text \<open>
  C9. No write of a job stores a \<^verbatim>\<open>createdAt\<close>: not the first write, not the write of the
  completed job, not the write of the failed job. So no job of a reachable store has
  one, and the cleanup removes nothing: it leaves the store as it is.
\<close>

theorem cleanup_never_removes:
  assumes "reachable jobs"
  shows "(\<forall>(jobId, job)\<in>set jobs. createdAt job = None) \<and>
         cleanup now jobs = jobs \<and>
         (\<forall>up jobId university major course k j.
            JobsSet k j \<in> set (processUniversityPDFs up jobId university major course)
              \<longrightarrow> createdAt j = None)"
proof -
  have inv: "\<forall>(k, j)\<in>set jobs. createdAt j = None"
    using assms evolves_createdAt [of "[]" jobs] by (simp add: reachable_def)
  have "cleanup now jobs = jobs" using inv by (rule cleanup_inert)
  moreover have "\<forall>up jobId university major course k j.
            JobsSet k j \<in> set (processUniversityPDFs up jobId university major course)
              \<longrightarrow> createdAt j = None"
    using task_event_createdAt by blast
  ultimately show ?thesis using inv by blast
qed


theorem cleanup_never_removes_witness:
  "reachable [(js ''job1'', initialJob)] \<and>
   createdAt initialJob = None \<and>
   cleanup 1700000000000 [(js ''job1'', initialJob)] = [(js ''job1'', initialJob)]"
proof -
  have "JobsSet (js ''job1'') initialJob \<in>
      set (processUniversityPDFs (ex_upstream ex_directory ex_text) (js ''job1'') (js ''UCLA'')
             (js ''Computer Science'') (js ''CS 101''))"
    by (simp add: processUniversityPDFs_def)
  with evolves.same [of "[]"]
  have "evolves [] (apply_event (JobsSet (js ''job1'') initialJob) [])"
    by (rule evolves.task)
  then have r: "reachable [(js ''job1'', initialJob)]"
    by (simp add: reachable_def)
  show ?thesis
    using r cleanup_never_removes [of "[(js ''job1'', initialJob)]" 1700000000000]
    by simp
qed

section \<open>The example run\<close>

lemma ex_check:
  "checkCourseArticulation (\<lambda>b. Inr ex_text) [] (js ''CS 101'') (js ''k1'') =
     \<lparr>college = js ''SMC'', isArticulated = True,
      articulatedCourse = Some (arrow @ js ''Accepted as CS1''),
      key_cc = js ''k1'', error_cc = None\<rparr>"
  by (simp add: checkCourseArticulation_def checkText_def collegeOf_def Let_def
      removeUnrendered_def unrendered_def ex_text_def js_def arrow_def indexOf_def
      substring_from_def substring_def includes_str_def notArticulated_def trim_def
      isWhiteSpace_def)

lemma ex_check_no_from:
  "checkCourseArticulation (\<lambda>b. Inr ex_text_no_from) [] (js ''CS 101'') (js ''k1'') =
     \<lparr>college = [], isArticulated = True,
      articulatedCourse = Some (arrow @ js ''Accepted as CS1''),
      key_cc = js ''k1'', error_cc = None\<rparr>"
  by (simp add: checkCourseArticulation_def checkText_def collegeOf_def Let_def
      removeUnrendered_def unrendered_def ex_text_no_from_def js_def arrow_def indexOf_def
      substring_from_def substring_def includes_str_def notArticulated_def trim_def
      isWhiteSpace_def)

lemma ex_findUniversity: "findUniversity ex_directory (js ''UCLA'') = Inr (Some 1)"
  by (simp add: ex_directory_def)

lemma ex_college5:
  "processCollege (ex_upstream d t) uid (js ''Computer Science'') course 5 colleges =
     (let courseCheck = checkCourseArticulation (\<lambda>b. Inr t) [] course (js ''k1'')
      in if isArticulated courseCheck \<and> college courseCheck \<noteq> []
         then ([Await, Await, Await, Push (college courseCheck)], colleges @ [college courseCheck])
         else ([Await, Await, Await], colleges))"
  by (simp add: processCollege_def ex_upstream_def Let_def)

lemma ex_college6:
  "processCollege (ex_upstream d t) uid (js ''Computer Science'') course 6 colleges =
     ([Await], colleges)"
  by (simp add: processCollege_def ex_upstream_def)

lemma ex_events:
  "processUniversityPDFs (ex_upstream ex_directory ex_text) (js ''job1'') (js ''UCLA'')
     (js ''Computer Science'') (js ''CS 101'') =
   [JobsSet (js ''job1'') initialJob, Await,
    UpdateJobProgress (js ''job1'') (js ''Fetching agreements...''), Await,
    UpdateJobProgress (js ''job1'') (js ''Processing '' @ toString 2 @ js '' colleges...''),
    Await, Await, Await, Push (js ''SMC''),
    UpdateJobProgress (js ''job1'')
      (js ''Processed '' @ toString 1 @ js ''/'' @ toString 2 @ js '' colleges''),
    Await,
    UpdateJobProgress (js ''job1'')
      (js ''Processed '' @ toString 2 @ js ''/'' @ toString 2 @ js '' colleges''),
    JobsSet (js ''job1'') (completedJob [js ''SMC''] 2 (js ''CS 101''))]"
proof -
  have a: "agreements_api (ex_upstream ex_directory ex_text) 1 =
      Inr [\<lparr>institutionParentId = 5\<rparr>, \<lparr>institutionParentId = 6\<rparr>]"
    and i: "institutions_api (ex_upstream ex_directory ex_text) = Inr ex_directory"
    by (simp_all add: ex_upstream_def)
  have s: "js ''SMC'' \<noteq> []" by (simp add: js_def)
  show ?thesis
    using task_completed [OF i ex_findUniversity _ a, of "js ''job1''" "js ''Computer Science''"
        "js ''CS 101''"] s
    by (simp add: processColleges_Cons ex_college5 ex_college6 ex_check Let_def numeral_2_eq_2
        del: processColleges.simps(2))
qed

section \<open>The life cycle of a job\<close>

lemma statusOf_after_first:
  assumes "\<forall>e\<in>set es. \<not> isJobsSet e"
  shows "statusOf (run_events (JobsSet jobId initialJob # es) jobs) jobId = Some Processing"
proof -
  have "statusOf (run_events (JobsSet jobId initialJob # es) jobs) jobId =
      statusOf (AList.update jobId initialJob jobs) jobId"
    using assms by (simp add: run_events_Cons statusOf_run_quiet)
  then show ?thesis by (simp add: statusOf_def map_of_update_same initialJob_def)
qed

text \<open>
  C8. Let a job perform its events on any store. After every event but the last the
  status of the job is \<^verbatim>\<open>processing\<close>; the last event stores the completed or the
  failed job, so a terminal status is never written over. Every push to the array of
  matches happens while the status is \<^verbatim>\<open>processing\<close>. The completed job holds the
  pushed colleges, and its \<^verbatim>\<open>articulatedCount\<close> is their number.
\<close>

theorem status_lifecycle:
  assumes "events = processUniversityPDFs up jobId university major course"
  shows "(\<forall>n. 0 < n \<and> n < length events \<longrightarrow>
            statusOf (run_events (take n events) jobs) jobId = Some Processing) \<and>
         (statusOf (run_events events jobs) jobId = Some Completed \<or>
          statusOf (run_events events jobs) jobId = Some Failed) \<and>
         (\<forall>n c. n < length events \<and> events ! n = Push c \<longrightarrow>
            statusOf (run_events (take n events) jobs) jobId = Some Processing) \<and>
         (\<forall>job. map_of (run_events events jobs) jobId = Some job \<and> status job = Completed \<longrightarrow>
            articulatedCount job = Some (length (applicableColleges job)) \<and>
            applicableColleges job = pushes events)"
proof -
  obtain mid final where
    shape: "processUniversityPDFs up jobId university major course =
       JobsSet jobId initialJob # Await # mid @ [JobsSet jobId final]"
    and quiet: "\<forall>e\<in>set mid. \<not> isJobsSet e"
    and final: "status final = Failed \<and> applicableColleges final = [] \<and> totalProcessed final = None \<or>
         status final = Completed \<and> applicableColleges final = pushes mid \<and>
         articulatedCount final = Some (length (applicableColleges final))"
    by (rule task_shape)
  let ?mid = "Await # mid"
  have ev: "events = JobsSet jobId initialJob # ?mid @ [JobsSet jobId final]"
    using assms shape by simp
  have quiet': "\<forall>e\<in>set ?mid. \<not> isJobsSet e" using quiet by simp
  have running: "statusOf (run_events (take n events) jobs) jobId = Some Processing"
    if "0 < n" "n < length events" for n
  proof -
    from that obtain k where k: "n = Suc k" "k \<le> length ?mid"
      by (cases n) (auto simp: ev)
    have "take (Suc k) (e # xs @ [x]) = e # take k xs" if "k \<le> length xs"
      for e x :: event and xs
      using that by simp
    from this [of ?mid "JobsSet jobId initialJob" "JobsSet jobId final"] k
    have "take n events = JobsSet jobId initialJob # take k ?mid"
      unfolding ev by blast
    moreover have "\<forall>e\<in>set (take k ?mid). \<not> isJobsSet e"
      using quiet' by (meson in_set_takeD)
    ultimately show ?thesis by (simp add: statusOf_after_first)
  qed
  have last: "map_of (run_events events jobs) jobId = Some final"
    using map_of_run_last [of "JobsSet jobId initialJob # ?mid" jobId final jobs]
    by (simp add: ev)
  have terminal: "statusOf (run_events events jobs) jobId = Some Completed \<or>
      statusOf (run_events events jobs) jobId = Some Failed"
    using final by (auto simp: statusOf_def last)
  have push: "statusOf (run_events (take n events) jobs) jobId = Some Processing"
    if "n < length events" "events ! n = Push c" for n c
  proof -
    have "0 < n" using that(2) by (cases n) (auto simp: ev)
    then show ?thesis using that(1) by (rule running)
  qed
  have count: "articulatedCount job = Some (length (applicableColleges job)) \<and>
      applicableColleges job = pushes events"
    if "map_of (run_events events jobs) jobId = Some job" "status job = Completed" for job
  proof -
    from that(1) last have "job = final" by simp
    moreover have "pushes events = pushes mid" by (simp add: ev pushes_append)
    ultimately show ?thesis using final that(2) by auto
  qed
  show ?thesis using running terminal push count by blast
qed

theorem status_lifecycle_witness:
  "statusOf (run_events (take 1
      (processUniversityPDFs (ex_upstream ex_directory ex_text) (js ''job1'') (js ''UCLA'')
         (js ''Computer Science'') (js ''CS 101''))) []) (js ''job1'') = Some Processing \<and>
   statusOf (run_events (take 12
      (processUniversityPDFs (ex_upstream ex_directory ex_text) (js ''job1'') (js ''UCLA'')
         (js ''Computer Science'') (js ''CS 101''))) []) (js ''job1'') = Some Processing \<and>
   processUniversityPDFs (ex_upstream ex_directory ex_text) (js ''job1'') (js ''UCLA'')
         (js ''Computer Science'') (js ''CS 101'') ! 8 = Push (js ''SMC'') \<and>
   statusOf (run_events (take 8
      (processUniversityPDFs (ex_upstream ex_directory ex_text) (js ''job1'') (js ''UCLA'')
         (js ''Computer Science'') (js ''CS 101''))) []) (js ''job1'') = Some Processing \<and>
   map_of (run_events
      (processUniversityPDFs (ex_upstream ex_directory ex_text) (js ''job1'') (js ''UCLA'')
         (js ''Computer Science'') (js ''CS 101'')) []) (js ''job1'') =
     Some (completedJob [js ''SMC''] 2 (js ''CS 101'')) \<and>
   status (completedJob [js ''SMC''] 2 (js ''CS 101'')) = Completed \<and>
   articulatedCount (completedJob [js ''SMC''] 2 (js ''CS 101'')) = Some 1 \<and>
   pushes (processUniversityPDFs (ex_upstream ex_directory ex_text) (js ''job1'') (js ''UCLA'')
         (js ''Computer Science'') (js ''CS 101'')) = [js ''SMC'']"
proof -
  let ?events = "processUniversityPDFs (ex_upstream ex_directory ex_text) (js ''job1'') (js ''UCLA'')
         (js ''Computer Science'') (js ''CS 101'')"
  have len: "length ?events = 13" and push: "?events ! 8 = Push (js ''SMC'')"
    by (simp_all add: ex_events)
  have final: "map_of (run_events ?events []) (js ''job1'') =
      Some (completedJob [js ''SMC''] 2 (js ''CS 101''))"
    using map_of_run_last [of "butlast ?events" "js ''job1''"
        "completedJob [js ''SMC''] 2 (js ''CS 101'')" "[]"]
    by (simp add: ex_events)
  have c: "status (completedJob [js ''SMC''] 2 (js ''CS 101'')) = Completed"
    by (simp add: completedJob_def)
  note t = status_lifecycle [of ?events "ex_upstream ex_directory ex_text" "js ''job1''"
      "js ''UCLA''" "js ''Computer Science''" "js ''CS 101''" "[]", OF refl]
  from t len have "statusOf (run_events (take 1 ?events) []) (js ''job1'') = Some Processing"
    and "statusOf (run_events (take 12 ?events) []) (js ''job1'') = Some Processing"
    by simp_all
  moreover from t len push
  have "statusOf (run_events (take 8 ?events) []) (js ''job1'') = Some Processing"
    by simp
  moreover from t final c
  have p: "applicableColleges (completedJob [js ''SMC''] 2 (js ''CS 101'')) = pushes ?events"
    by blast
  have "pushes ?events = [js ''SMC'']"
    using p [symmetric] by (simp add: completedJob_def)
  moreover have "articulatedCount (completedJob [js ''SMC''] 2 (js ''CS 101'')) = Some 1"
    by (simp add: completedJob_def)
  ultimately show ?thesis using push final c by simp
qed

section \<open>Submission and polling\<close>

text \<open>
  C10. A valid submission stores the job, with status \<^verbatim>\<open>processing\<close>, before the first
  \<^verbatim>\<open>await\<close> of the job: when the handler responds with the job id, the store holds the
  job, and a poll for the id answers with the job, not with 404. The job also stays in
  the store however the store evolves afterwards.
\<close>

theorem job_stored_before_first_await:
  assumes "u \<noteq> []" and "m \<noteq> []" and "c \<noteq> []"
  shows "\<exists>pending.
     processUniversityPDFs up newJobId u m c = JobsSet newJobId initialJob # Await # pending \<and>
     post_api_process_pdfs up newJobId (Some u) (Some m) (Some c) jobs =
       (Started newJobId, AList.update newJobId initialJob jobs, Await # pending) \<and>
     status initialJob = Processing \<and>
     get_api_jobs (AList.update newJobId initialJob jobs) newJobId = JobJson initialJob \<and>
     (reachable jobs \<longrightarrow>
        (\<forall>jobs'. evolves (AList.update newJobId initialJob jobs) jobs' \<longrightarrow>
           (\<exists>job. get_api_jobs jobs' newJobId = JobJson job)))"
proof -
  obtain mid final where
    shape: "processUniversityPDFs up newJobId u m c =
       JobsSet newJobId initialJob # Await # mid @ [JobsSet newJobId final]"
    by (rule task_shape)
  let ?pending = "mid @ [JobsSet newJobId final]"
  let ?jobs = "AList.update newJobId initialJob jobs"
  have post: "post_api_process_pdfs up newJobId (Some u) (Some m) (Some c) jobs =
       (Started newJobId, ?jobs, Await # ?pending)"
    using assms by (simp add: post_api_process_pdfs_def shape run_events_Cons run_events_Nil)
  have poll: "get_api_jobs ?jobs newJobId = JobJson initialJob"
    by (simp add: get_api_jobs_def map_of_update_same)
  have later: "\<exists>job. get_api_jobs jobs' newJobId = JobJson job"
    if "reachable jobs" "evolves ?jobs jobs'" for jobs'
  proof -
    have "\<forall>(k, j)\<in>set jobs. createdAt j = None"
      using that(1) evolves_createdAt [of "[]" jobs] by (simp add: reachable_def)
    then have "\<forall>(k, j)\<in>set ?jobs. createdAt j = None"
      by (rule createdAt_update) (simp add: initialJob_def)
    moreover have "newJobId \<in> fst ` set ?jobs" by (simp add: dom_update)
    ultimately have "newJobId \<in> fst ` set jobs'"
      using that(2) evolves_keeps_job by blast
    then obtain job where "map_of jobs' newJobId = Some job"
      by (metis domD dom_map_of_conv_image_fst)
    then show ?thesis by (simp add: get_api_jobs_def)
  qed
  have "status initialJob = Processing" by (simp add: initialJob_def)
  with shape post poll later show ?thesis by blast
qed


theorem job_stored_before_first_await_witness:
  "js ''UCLA'' \<noteq> [] \<and> js ''Computer Science'' \<noteq> [] \<and> js ''CS 101'' \<noteq> [] \<and>
   fst (post_api_process_pdfs (ex_upstream ex_directory ex_text) (js ''job1'')
     (Some (js ''UCLA'')) (Some (js ''Computer Science'')) (Some (js ''CS 101'')) []) =
     Started (js ''job1'') \<and>
   fst (snd (post_api_process_pdfs (ex_upstream ex_directory ex_text) (js ''job1'')
     (Some (js ''UCLA'')) (Some (js ''Computer Science'')) (Some (js ''CS 101'')) [])) =
     [(js ''job1'', initialJob)] \<and>
   get_api_jobs [(js ''job1'', initialJob)] (js ''job1'') = JobJson initialJob \<and>
   reachable []"
proof -
  have n: "js ''UCLA'' \<noteq> []" "js ''Computer Science'' \<noteq> []" "js ''CS 101'' \<noteq> []"
    by (simp_all add: js_def)
  have r: "reachable []" by (simp add: reachable_def evolves.same)
  from job_stored_before_first_await [OF n, of "ex_upstream ex_directory ex_text" "js ''job1''" "[]"]
  obtain pending where
    "post_api_process_pdfs (ex_upstream ex_directory ex_text) (js ''job1'')
       (Some (js ''UCLA'')) (Some (js ''Computer Science'')) (Some (js ''CS 101'')) [] =
     (Started (js ''job1''), AList.update (js ''job1'') initialJob [], Await # pending)"
    and "get_api_jobs (AList.update (js ''job1'') initialJob []) (js ''job1'') = JobJson initialJob"
    by blast
  then show ?thesis using n r by simp
qed

section \<open>Failures of a partner\<close>

lemma task_completed_final:
  assumes "institutions_api up = Inr institutions"
    and "findUniversity institutions university = Inr (Some universityId)"
    and "universityId \<noteq> 0"
    and "agreements_api up universityId = Inr agreementData"
  shows "map_of (run_events (processUniversityPDFs up jobId university major course) jobs) jobId =
     Some (completedJob
       (concat (map (\<lambda>cid. snd (processCollege up universityId major course cid []))
          (map institutionParentId agreementData)))
       (length agreementData) course)"
proof -
  have "\<exists>es. processUniversityPDFs up jobId university major course =
      es @ [JobsSet jobId (completedJob
       (concat (map (\<lambda>cid. snd (processCollege up universityId major course cid []))
          (map institutionParentId agreementData)))
       (length agreementData) course)]"
    using task_completed [OF assms, of jobId major course]
    by (metis append_Cons)
  then show ?thesis by (auto simp: map_of_run_last)
qed


lemma partnerFails_processCollege:
  assumes "partnerFails up uid major cid"
  shows "snd (processCollege up uid major course cid colleges) = colleges \<and>
         set (fst (processCollege up uid major course cid colleges)) \<subseteq> {Await}"
  using assms
  by (auto simp: partnerFails_def processCollege_def findMajor_find checkCourseArticulation_def
      Let_def isl_def split: sum.splits option.splits if_splits)

lemma task_zero_id:
  assumes "institutions_api up = Inr institutions"
    and "findUniversity institutions university = Inr (Some 0)"
  shows "processUniversityPDFs up jobId university major course =
     [JobsSet jobId initialJob, Await] @ [JobsSet jobId (failedJob (notFoundMessage university))]"
  using assms by (simp add: processUniversityPDFs_def)

text \<open>
  C7. When a job completes, \<^verbatim>\<open>totalProcessed\<close> is the number of the partner identifiers
  enumerated, and the matches are the contributions of the partners in their order. A
  partner that fails (network error, missing major, fetch with a status other than 200,
  exception of the parser) contributes nothing and performs no write to the store; the
  loop goes on with the next partner with the matches as they were, and no event of the
  loop changes the status of a job.
\<close>

theorem partner_failures_isolated:
  assumes "institutions_api up = Inr institutions"
    and "findUniversity institutions university = Inr (Some universityId)"
    and "agreements_api up universityId = Inr agreementData"
    and "map_of (run_events (processUniversityPDFs up jobId university major course) jobs) jobId
           = Some job"
    and "status job = Completed"
  shows "totalProcessed job = Some (length (map institutionParentId agreementData)) \<and>
         applicableColleges job =
           concat (map (\<lambda>cid. snd (processCollege up universityId major course cid []))
             (map institutionParentId agreementData)) \<and>
         (\<forall>cid colleges. partnerFails up universityId major cid \<longrightarrow>
            snd (processCollege up universityId major course cid colleges) = colleges \<and>
            set (fst (processCollege up universityId major course cid colleges)) \<subseteq> {Await}) \<and>
         (\<forall>cid rest colleges n N. partnerFails up universityId major cid \<longrightarrow>
            snd (processColleges up jobId universityId major course N (cid # rest) colleges n) =
            snd (processColleges up jobId universityId major course N rest colleges (Suc n))) \<and>
         (\<forall>cids colleges n N store k.
            statusOf (run_events
              (fst (processColleges up jobId universityId major course N cids colleges n)) store) k
            = statusOf store k)"
proof -
  have nonzero: "universityId \<noteq> 0"
  proof
    assume "universityId = 0"
    with assms(1,2) have "map_of (run_events (processUniversityPDFs up jobId university major course) jobs) jobId
        = Some (failedJob (notFoundMessage university))"
      by (simp only: task_zero_id map_of_run_last)
    with assms(4) have "job = failedJob (notFoundMessage university)" by simp
    then have "status job = Failed" by (simp add: failedJob_def)
    with assms(5) show False by simp
  qed
  let ?final = "completedJob
     (concat (map (\<lambda>cid. snd (processCollege up universityId major course cid []))
        (map institutionParentId agreementData)))
     (length agreementData) course"
  have "map_of (run_events (processUniversityPDFs up jobId university major course) jobs) jobId
      = Some ?final"
    using assms(1,2) nonzero assms(3) by (rule task_completed_final)
  with assms(4) have job: "job = ?final" by simp
  have count: "totalProcessed job = Some (length (map institutionParentId agreementData))"
    and matches: "applicableColleges job =
           concat (map (\<lambda>cid. snd (processCollege up universityId major course cid []))
             (map institutionParentId agreementData))"
    by (simp_all add: job completedJob_def)
  have skip: "snd (processColleges up jobId universityId major course N (cid # rest) colleges n) =
      snd (processColleges up jobId universityId major course N rest colleges (Suc n))"
    if "partnerFails up universityId major cid" for cid rest colleges n N
    using partnerFails_processCollege [OF that, of course colleges]
    by (simp add: processColleges_Cons del: processColleges.simps(2))
  have quiet: "statusOf (run_events
      (fst (processColleges up jobId universityId major course N cids colleges n)) store) k
      = statusOf store k" for cids colleges n N store k
    by (rule statusOf_run_quiet) (auto dest: processColleges_events)
  show ?thesis
    using count matches partnerFails_processCollege skip quiet by blast
qed

lemma ex_final:
  "map_of (run_events
      (processUniversityPDFs (ex_upstream ex_directory ex_text) (js ''job1'') (js ''UCLA'')
         (js ''Computer Science'') (js ''CS 101'')) []) (js ''job1'') =
     Some (completedJob [js ''SMC''] 2 (js ''CS 101''))"
  using map_of_run_last [of "butlast (processUniversityPDFs (ex_upstream ex_directory ex_text)
      (js ''job1'') (js ''UCLA'') (js ''Computer Science'') (js ''CS 101''))" "js ''job1''"
        "completedJob [js ''SMC''] 2 (js ''CS 101'')" "[]"]
  by (simp add: ex_events)

theorem partner_failures_isolated_witness:
  "institutions_api (ex_upstream ex_directory ex_text) = Inr ex_directory \<and>
   findUniversity ex_directory (js ''UCLA'') = Inr (Some 1) \<and>
   agreements_api (ex_upstream ex_directory ex_text) 1 =
     Inr [\<lparr>institutionParentId = 5\<rparr>, \<lparr>institutionParentId = 6\<rparr>] \<and>
   map_of (run_events
      (processUniversityPDFs (ex_upstream ex_directory ex_text) (js ''job1'') (js ''UCLA'')
         (js ''Computer Science'') (js ''CS 101'')) []) (js ''job1'') =
     Some (completedJob [js ''SMC''] 2 (js ''CS 101'')) \<and>
   status (completedJob [js ''SMC''] 2 (js ''CS 101'')) = Completed \<and>
   totalProcessed (completedJob [js ''SMC''] 2 (js ''CS 101'')) = Some 2 \<and>
   partnerFails (ex_upstream ex_directory ex_text) 1 (js ''Computer Science'') 6 \<and>
   snd (processCollege (ex_upstream ex_directory ex_text) 1 (js ''Computer Science'')
          (js ''CS 101'') 6 [js ''SMC'']) = [js ''SMC'']"
proof -
  let ?up = "ex_upstream ex_directory ex_text"
  have i: "institutions_api ?up = Inr ex_directory"
    and a: "agreements_api ?up 1 = Inr [\<lparr>institutionParentId = 5\<rparr>, \<lparr>institutionParentId = 6\<rparr>]"
    and f: "partnerFails ?up 1 (js ''Computer Science'') 6"
    by (simp_all add: ex_upstream_def partnerFails_def)
  have c: "status (completedJob [js ''SMC''] 2 (js ''CS 101'')) = Completed"
    by (simp add: completedJob_def)
  note t = partner_failures_isolated [OF i ex_findUniversity a ex_final c]
  from t have "totalProcessed (completedJob [js ''SMC''] 2 (js ''CS 101'')) = Some 2"
    by simp
  moreover from t f
  have "snd (processCollege ?up 1 (js ''Computer Science'') (js ''CS 101'') 6 [js ''SMC''])
      = [js ''SMC'']"
    by blast
  ultimately show ?thesis using i ex_findUniversity a ex_final c f by simp
qed

section \<open>The matches of a job\<close>

text \<open>
  C1, as the code has it. When the document of a partner is fetched with status 200, the
  check reports articulated and the college name it extracted is not empty, the loop
  appends that college name (the string, not the object of the check) to the matches, and
  the completed job holds it.
\<close>

theorem articulated_college_appended:
  assumes "institutions_api up = Inr institutions"
    and "findUniversity institutions university = Inr (Some universityId)"
    and "universityId \<noteq> 0"
    and "agreements_api up universityId = Inr agreementData"
    and "collegeId \<in> set (map institutionParentId agreementData)"
    and "majors_api up universityId collegeId = Inr majorData"
    and "List.find (\<lambda>r. label r = major) (case reports majorData of Some rs \<Rightarrow> rs | None \<Rightarrow> [])
           = Some majorEntry"
    and "artifacts_api up (key majorEntry) = Inr pdfResponse"
    and "status_resp pdfResponse = 200"
    and "courseCheck =
           checkCourseArticulation (PDFParser up) (data pdfResponse) course (key majorEntry)"
    and "isArticulated courseCheck"
    and "college courseCheck \<noteq> []"
  shows "snd (processCollege up universityId major course collegeId colleges) =
           colleges @ [college courseCheck] \<and>
         (\<exists>job. map_of (run_events (processUniversityPDFs up jobId university major course) jobs)
                   jobId = Some job \<and>
                status job = Completed \<and>
                college courseCheck \<in> set (applicableColleges job))"
proof -
  have one: "snd (processCollege up universityId major course collegeId cs) =
      cs @ [college courseCheck]" for cs
    using assms(6-12) by (simp add: processCollege_def findMajor_find Let_def)
  let ?final = "completedJob
     (concat (map (\<lambda>cid. snd (processCollege up universityId major course cid []))
        (map institutionParentId agreementData)))
     (length agreementData) course"
  have final: "map_of (run_events (processUniversityPDFs up jobId university major course) jobs)
      jobId = Some ?final"
    using assms(1-4) by (rule task_completed_final)
  have "college courseCheck \<in> set (snd (processCollege up universityId major course collegeId []))"
    by (simp add: one)
  with assms(5) have "college courseCheck \<in> set (applicableColleges ?final)"
    by (auto simp: completedJob_def)
  moreover have "status ?final = Completed" by (simp add: completedJob_def)
  ultimately show ?thesis using one final by blast
qed

theorem articulated_college_appended_witness:
  "institutions_api (ex_upstream ex_directory ex_text) = Inr ex_directory \<and>
   findUniversity ex_directory (js ''UCLA'') = Inr (Some 1) \<and>
   agreements_api (ex_upstream ex_directory ex_text) 1 =
     Inr [\<lparr>institutionParentId = 5\<rparr>, \<lparr>institutionParentId = 6\<rparr>] \<and>
   majors_api (ex_upstream ex_directory ex_text) 1 5 =
     Inr \<lparr>reports = Some [\<lparr>label = js ''Computer Science'', key = js ''k1''\<rparr>]\<rparr> \<and>
   artifacts_api (ex_upstream ex_directory ex_text) (js ''k1'') =
     Inr \<lparr>status_resp = 200, data = []\<rparr> \<and>
   isArticulated (checkCourseArticulation (PDFParser (ex_upstream ex_directory ex_text)) []
     (js ''CS 101'') (js ''k1'')) \<and>
   college (checkCourseArticulation (PDFParser (ex_upstream ex_directory ex_text)) []
     (js ''CS 101'') (js ''k1'')) = js ''SMC'' \<and>
   snd (processCollege (ex_upstream ex_directory ex_text) 1 (js ''Computer Science'')
     (js ''CS 101'') 5 []) = [js ''SMC'']"
proof -
  let ?up = "ex_upstream ex_directory ex_text"
  let ?cc = "checkCourseArticulation (PDFParser ?up) [] (js ''CS 101'') (js ''k1'')"
  have i: "institutions_api ?up = Inr ex_directory"
    and a: "agreements_api ?up 1 = Inr [\<lparr>institutionParentId = 5\<rparr>, \<lparr>institutionParentId = 6\<rparr>]"
    and m: "majors_api ?up 1 5 =
      Inr \<lparr>reports = Some [\<lparr>label = js ''Computer Science'', key = js ''k1''\<rparr>]\<rparr>"
    and p: "artifacts_api ?up (js ''k1'') = Inr \<lparr>status_resp = 200, data = []\<rparr>"
    and parser: "PDFParser ?up = (\<lambda>b. Inr ex_text)"
    by (simp_all add: ex_upstream_def)
  have cc: "isArticulated ?cc" "college ?cc = js ''SMC''" "college ?cc \<noteq> []"
    by (simp_all add: parser ex_check) (simp add: js_def)
  have "snd (processCollege ?up 1 (js ''Computer Science'') (js ''CS 101'') 5 []) =
      [] @ [college ?cc]"
    using articulated_college_appended [of ?up ex_directory "js ''UCLA''" 1
        "[\<lparr>institutionParentId = 5\<rparr>, \<lparr>institutionParentId = 6\<rparr>]" 5
        "\<lparr>reports = Some [\<lparr>label = js ''Computer Science'', key = js ''k1''\<rparr>]\<rparr>"
        "js ''Computer Science''" "\<lparr>label = js ''Computer Science'', key = js ''k1''\<rparr>"
        "\<lparr>status_resp = 200, data = []\<rparr>" ?cc "js ''CS 101''" "[]"]
      i ex_findUniversity a m p cc
    by simp
  then show ?thesis using i ex_findUniversity a m p cc by simp
qed

lemma ex_events_no_from:
  "map_of (run_events
      (processUniversityPDFs (ex_upstream ex_directory ex_text_no_from) (js ''job1'') (js ''UCLA'')
         (js ''Computer Science'') (js ''CS 101'')) []) (js ''job1'') =
     Some (completedJob [] 2 (js ''CS 101''))"
proof -
  let ?up = "ex_upstream ex_directory ex_text_no_from"
  have a: "agreements_api ?up 1 = Inr [\<lparr>institutionParentId = 5\<rparr>, \<lparr>institutionParentId = 6\<rparr>]"
    and i: "institutions_api ?up = Inr ex_directory"
    by (simp_all add: ex_upstream_def)
  show ?thesis
    using task_completed_final [OF i ex_findUniversity _ a, of "js ''job1''"
        "js ''Computer Science''" "js ''CS 101''" "[]"]
    by (simp add: ex_college5 ex_college6 ex_check_no_from Let_def numeral_2_eq_2)
qed

text \<open>
  C1 as stated fails: the document of college 5 is fetched with status 200 and the check
  reports articulated, but the document has no \<^verbatim>\<open>From:\<close> line, the college name is
  empty, and nothing is appended to the matches of the job.
\<close>

theorem articulated_without_college_not_appended:
  "artifacts_api (ex_upstream ex_directory ex_text_no_from) (js ''k1'') =
     Inr \<lparr>status_resp = 200, data = []\<rparr> \<and>
   isArticulated (checkCourseArticulation (PDFParser (ex_upstream ex_directory ex_text_no_from)) []
     (js ''CS 101'') (js ''k1'')) \<and>
   map_of (run_events
      (processUniversityPDFs (ex_upstream ex_directory ex_text_no_from) (js ''job1'') (js ''UCLA'')
         (js ''Computer Science'') (js ''CS 101'')) []) (js ''job1'') =
     Some (completedJob [] 2 (js ''CS 101'')) \<and>
   status (completedJob [] 2 (js ''CS 101'')) = Completed \<and>
   applicableColleges (completedJob [] 2 (js ''CS 101'')) = []"
proof -
  have "PDFParser (ex_upstream ex_directory ex_text_no_from) = (\<lambda>b. Inr ex_text_no_from)"
    and "artifacts_api (ex_upstream ex_directory ex_text_no_from) (js ''k1'') =
     Inr \<lparr>status_resp = 200, data = []\<rparr>"
    by (simp_all add: ex_upstream_def)
  then show ?thesis
    by (simp add: ex_check_no_from ex_events_no_from completedJob_def)
qed

section \<open>The resolution of the university\<close>

lemma findUniversity_no_match:
  "\<forall>inst\<in>set institutions. names inst \<noteq> [] \<and> \<not> entryMatches university inst
    \<Longrightarrow> findUniversity institutions university = Inr None"
  by (induction institutions) (auto simp: entryMatches_def split: list.splits)

lemma findUniversity_no_match_cases:
  "\<forall>inst\<in>set institutions. \<not> entryMatches university inst
    \<Longrightarrow> findUniversity institutions university = Inr None \<or>
        findUniversity institutions university = Inl undefinedNameMessage"
  by (induction institutions) (auto simp: entryMatches_def split: list.splits)

lemma findUniversity_first_match:
  "\<forall>p\<in>set pre. names p \<noteq> [] \<and> \<not> entryMatches university p \<Longrightarrow> entryMatches university inst
    \<Longrightarrow> findUniversity (pre @ inst # post) university = Inr (Some (id_inst inst))"
  by (induction pre) (auto simp: entryMatches_def split: list.splits)

lemma task_not_resolved:
  assumes "institutions_api up = Inr institutions"
    and "findUniversity institutions university = Inr None"
  shows "processUniversityPDFs up jobId university major course =
     [JobsSet jobId initialJob, Await] @ [JobsSet jobId (failedJob (notFoundMessage university))]"
  using assms by (simp add: processUniversityPDFs_def)

lemma task_name_error:
  assumes "institutions_api up = Inr institutions"
    and "findUniversity institutions university = Inl message"
  shows "processUniversityPDFs up jobId university major course =
     [JobsSet jobId initialJob, Await] @ [JobsSet jobId (failedJob message)]"
  using assms by (simp add: processUniversityPDFs_def)

lemma notFoundMessage_mentions: "sublist university (notFoundMessage university)"
proof -
  have "notFoundMessage university =
      (js ''University '' @ [0x22]) @ university @ ([0x22] @ js '' not found'')"
    by (simp add: notFoundMessage_def)
  then show ?thesis by (simp only: sublist_appendI)
qed

text \<open>
  C2, as the code has it. The university is resolved by equality of the requested name
  with the first name variant of an entry, code unit by code unit: the first such entry
  gives the id, provided the entries before it have a name variant. When no entry
  matches, the job ends with status \<^verbatim>\<open>failed\<close> and no matches; when moreover every entry
  has a name variant, its error is the message \<^verbatim>\<open>University "..." not found\<close>, which
  mentions the requested name.
\<close>

theorem unknown_university_fails:
  assumes "institutions_api up = Inr institutions"
  shows "((\<forall>inst\<in>set institutions. \<not> entryMatches university inst) \<longrightarrow>
            (\<exists>job. map_of (run_events (processUniversityPDFs up jobId university major course) jobs)
                      jobId = Some job \<and>
                   status job = Failed \<and> applicableColleges job = [] \<and>
                   ((\<forall>inst\<in>set institutions. names inst \<noteq> []) \<longrightarrow>
                      error job = Some (notFoundMessage university) \<and>
                      sublist university (notFoundMessage university)))) \<and>
         (\<forall>pre inst post.
            institutions = pre @ inst # post \<and>
            (\<forall>p\<in>set pre. names p \<noteq> [] \<and> \<not> entryMatches university p) \<and>
            entryMatches university inst \<longrightarrow>
            findUniversity institutions university = Inr (Some (id_inst inst)))"
proof -
  let ?run = "run_events (processUniversityPDFs up jobId university major course) jobs"
  have fails: "\<exists>job. map_of ?run jobId = Some job \<and> status job = Failed \<and>
      applicableColleges job = [] \<and>
      ((\<forall>inst\<in>set institutions. names inst \<noteq> []) \<longrightarrow>
         error job = Some (notFoundMessage university) \<and>
         sublist university (notFoundMessage university))"
    if none: "\<forall>inst\<in>set institutions. \<not> entryMatches university inst"
  proof (cases "findUniversity institutions university = Inr None")
    case True
    with assms have "map_of ?run jobId = Some (failedJob (notFoundMessage university))"
      by (simp only: task_not_resolved map_of_run_last)
    then show ?thesis
      by (simp add: failedJob_def notFoundMessage_mentions)
  next
    case False
    with none have err: "findUniversity institutions university = Inl undefinedNameMessage"
      using findUniversity_no_match_cases by blast
    with assms have "map_of ?run jobId = Some (failedJob undefinedNameMessage)"
      by (simp only: task_name_error map_of_run_last)
    moreover have "\<not> (\<forall>inst\<in>set institutions. names inst \<noteq> [])"
      using False none findUniversity_no_match by blast
    ultimately show ?thesis by (auto simp: failedJob_def)
  qed
  have resolves: "findUniversity institutions university = Inr (Some (id_inst inst))"
    if "institutions = pre @ inst # post"
      "\<forall>p\<in>set pre. names p \<noteq> [] \<and> \<not> entryMatches university p"
      "entryMatches university inst" for pre inst post
    using that by (simp add: findUniversity_first_match)
  show ?thesis using fails resolves by blast
qed

theorem unknown_university_fails_witness:
  "institutions_api (ex_upstream ex_directory ex_text) = Inr ex_directory \<and>
   \<not> entryMatches (js ''ucla'') \<lparr>id_inst = 1, names = [\<lparr>name = js ''UCLA''\<rparr>]\<rparr> \<and>
   names \<lparr>id_inst = 1, names = [\<lparr>name = js ''UCLA''\<rparr>]\<rparr> \<noteq> [] \<and>
   (\<exists>job. map_of (run_events (processUniversityPDFs (ex_upstream ex_directory ex_text) (js ''job1'')
              (js ''ucla'') (js ''Computer Science'') (js ''CS 101'')) []) (js ''job1'') = Some job \<and>
          status job = Failed \<and> applicableColleges job = [] \<and>
          error job = Some (notFoundMessage (js ''ucla'')) \<and>
          sublist (js ''ucla'') (notFoundMessage (js ''ucla''))) \<and>
   entryMatches (js ''UCLA'') \<lparr>id_inst = 1, names = [\<lparr>name = js ''UCLA''\<rparr>]\<rparr> \<and>
   findUniversity ex_directory (js ''UCLA'') = Inr (Some 1)"
proof -
  have i: "institutions_api (ex_upstream ex_directory ex_text) = Inr ex_directory"
    by (simp add: ex_upstream_def)
  have n: "\<not> entryMatches (js ''ucla'') \<lparr>id_inst = 1, names = [\<lparr>name = js ''UCLA''\<rparr>]\<rparr>"
    and m: "entryMatches (js ''UCLA'') \<lparr>id_inst = 1, names = [\<lparr>name = js ''UCLA''\<rparr>]\<rparr>"
    by (simp_all add: entryMatches_def js_def)
  have none: "\<forall>inst\<in>set ex_directory. \<not> entryMatches (js ''ucla'') inst"
    and named: "\<forall>inst\<in>set ex_directory. names inst \<noteq> []"
    using n by (simp_all add: ex_directory_def)
  note t = unknown_university_fails [OF i]
  from t [of "js ''ucla'' " "js ''job1''" "js ''Computer Science''" "js ''CS 101''" "[]"] none named
  have "\<exists>job. map_of (run_events (processUniversityPDFs (ex_upstream ex_directory ex_text) (js ''job1'')
              (js ''ucla'') (js ''Computer Science'') (js ''CS 101'')) []) (js ''job1'') = Some job \<and>
          status job = Failed \<and> applicableColleges job = [] \<and>
          error job = Some (notFoundMessage (js ''ucla'')) \<and>
          sublist (js ''ucla'') (notFoundMessage (js ''ucla''))"
    by blast
  then show ?thesis using i n m ex_findUniversity by simp
qed

text \<open>
  C2 as stated fails: for a directory with an entry that has no name variant, no entry
  matches \<^verbatim>\<open>UCLA\<close>, the job fails, but its error is the message of the TypeError, which
  does not mention the requested name.
\<close>

theorem nameless_entry_error_counterexample:
  "institutions_api (ex_upstream [\<lparr>id_inst = 1, names = []\<rparr>] ex_text) =
     Inr [\<lparr>id_inst = 1, names = []\<rparr>] \<and>
   \<not> entryMatches (js ''UCLA'') \<lparr>id_inst = 1, names = []\<rparr> \<and>
   map_of (run_events
      (processUniversityPDFs (ex_upstream [\<lparr>id_inst = 1, names = []\<rparr>] ex_text) (js ''job1'')
         (js ''UCLA'') (js ''Computer Science'') (js ''CS 101'')) []) (js ''job1'') =
     Some (failedJob undefinedNameMessage) \<and>
   error (failedJob undefinedNameMessage) = Some undefinedNameMessage \<and>
   \<not> sublist (js ''UCLA'') undefinedNameMessage"
proof -
  have i: "institutions_api (ex_upstream [\<lparr>id_inst = 1, names = []\<rparr>] ex_text) =
     Inr [\<lparr>id_inst = 1, names = []\<rparr>]"
    by (simp add: ex_upstream_def)
  have f: "findUniversity [\<lparr>id_inst = 1, names = []\<rparr>] (js ''UCLA'') = Inl undefinedNameMessage"
    by simp
  have r: "map_of (run_events
      (processUniversityPDFs (ex_upstream [\<lparr>id_inst = 1, names = []\<rparr>] ex_text) (js ''job1'')
         (js ''UCLA'') (js ''Computer Science'') (js ''CS 101'')) []) (js ''job1'') =
     Some (failedJob undefinedNameMessage)"
    using i f by (simp only: task_name_error map_of_run_last)
  have s: "\<not> sublist (js ''UCLA'') undefinedNameMessage"
    by (simp add: undefinedNameMessage_def js_def sublist_code)
  show ?thesis using i r s by (simp add: entryMatches_def failedJob_def)
qed

end
